theory Spec2Isabelle
  imports
    Main
    "HOL-Library.Char_ord"
    "HOL-Library.List_Lexorder"
    "HOL-Library.Multiset"
    "HOL-Library.AList"
begin

section \<open>The platform interface\<close>

text \<open>
  The classroom setup notebook (\<^verbatim>\<open>Includes/Classroom-Setup.py\<close>) is glue code over the
  Databricks utilities: \<^verbatim>\<open>dbutils.fs.ls\<close>, \<^verbatim>\<open>mkdirs\<close>, \<^verbatim>\<open>rm\<close>, \<^verbatim>\<open>cp\<close> and
  \<^verbatim>\<open>dbutils.widgets.get\<close>. Those calls belong to the platform, not to the repository, so
  they are parameters of the model: a record of functions over an abstract world \<open>'w\<close>
  (the distributed file system together with the remote store and the notebook widgets).
  Every call either returns a value or raises; a raised platform exception is a value of
  the type \<open>'e\<close>. Listing a directory and reading a widget do not change the world; the
  other calls return the world they leave behind, also when they raise.
\<close>

record FileInfo =
  path :: string
  isDir :: bool

record ('w, 'e) dbutils =
  fs_ls :: "'w \<Rightarrow> string \<Rightarrow> 'e + FileInfo list"
  fs_mkdirs :: "'w \<Rightarrow> string \<Rightarrow> ('e + bool) \<times> 'w"
  fs_rm :: "'w \<Rightarrow> string \<Rightarrow> bool \<Rightarrow> ('e + bool) \<times> 'w"
  fs_cp :: "'w \<Rightarrow> string \<Rightarrow> string \<Rightarrow> bool \<Rightarrow> ('e + bool) \<times> 'w"
  widgets_get :: "'w \<Rightarrow> string \<Rightarrow> 'e + string"

text \<open>
  Exceptions seen by the notebooks: one raised by a platform or library call, the generic
  \<^verbatim>\<open>Exception(msg)\<close> that \<^verbatim>\<open>validate_datasets\<close> raises itself, and the two
  built-in errors of indexing a sequence and of looking a key up.
\<close>

datatype 'e exn = Raised 'e | Exception string | IndexError | KeyError string

text \<open>
  Console output is kept as a trace. Each constructor stands for one \<^verbatim>\<open>print\<close> statement
  of the notebook, with the values interpolated into its f-string as arguments:
  \<^item> \<open>SourceIs\<close>: "The source for this dataset is\n{source_path}/\n"
  \<^item> \<open>DatasetDirIs\<close>: "Your dataset directory is\n{target_dir}\n"
  \<^item> \<open>SkippingInstall\<close>: "Skipping install of existing dataset."
  \<^item> \<open>Removing\<close>: "Removing previously installed datasets from\n{target_dir}"
  \<^item> \<open>InstallingTo\<close>: "Installing the datasets to {target_dir}"
  \<^item> \<open>NoteDuration\<close>: the note on the location of the datasets, with {min_time} and {max_time}
  \<^item> \<open>InstallingDataset\<close>: "\nInstalling the dataset..."
  \<^item> \<open>InstallCompleted\<close>: "\nThe install of the datasets completed successfully."
  \<^item> \<open>Validating\<close>: "\nValidating the local copy of the datsets", printed with end="..."
  \<^item> \<open>FoundExtraFile\<close>: "\n  - Found extra file: {file}"
  \<^item> \<open>MissingFile\<close>: "\n  - Missing file: {file}"
  \<^item> \<open>FixByReinstalling\<close>: "  - This problem can be fixed by reinstalling the datasets"
  \<^item> \<open>ElapsedSeconds\<close>: "({int(time.time())-start} seconds)"; the number is read from the
    wall clock and is not represented.
\<close>

datatype message =
    SourceIs string
  | DatasetDirIs string
  | SkippingInstall
  | Removing string
  | InstallingTo string
  | NoteDuration string string
  | InstallingDataset
  | InstallCompleted
  | Validating
  | FoundExtraFile string
  | MissingFile string
  | FixByReinstalling
  | ElapsedSeconds

text \<open>
  The trace also records every call that can change the file system, with its arguments.
\<close>

datatype event =
    Print message
  | FsMkdirs string
  | FsRm string bool
  | FsCp string string bool

record 'w state =
  world :: 'w
  trace :: "event list"

definition emit :: "message \<Rightarrow> 'w state \<Rightarrow> 'w state" where
  "emit m s = s\<lparr>trace := trace s @ [Print m]\<rparr>"

definition raised :: "'e + 'a \<Rightarrow> 'e exn + 'a" where
  "raised r = (case r of Inl e \<Rightarrow> Inl (Raised e) | Inr v \<Rightarrow> Inr v)"

definition mkdirs :: "('w, 'e) dbutils \<Rightarrow> string \<Rightarrow> 'w state \<Rightarrow> ('e exn + bool) \<times> 'w state" where
  "mkdirs dbutils dir s =
     (case fs_mkdirs dbutils (world s) dir of
        (r, w) \<Rightarrow> (raised r, \<lparr>world = w, trace = trace s @ [FsMkdirs dir]\<rparr>))"

definition rm :: "('w, 'e) dbutils \<Rightarrow> string \<Rightarrow> bool \<Rightarrow> 'w state \<Rightarrow> ('e exn + bool) \<times> 'w state" where
  "rm dbutils dir recurse s =
     (case fs_rm dbutils (world s) dir recurse of
        (r, w) \<Rightarrow> (raised r, \<lparr>world = w, trace = trace s @ [FsRm dir recurse]\<rparr>))"

definition cp :: "('w, 'e) dbutils \<Rightarrow> string \<Rightarrow> string \<Rightarrow> bool \<Rightarrow> 'w state
                    \<Rightarrow> ('e exn + bool) \<times> 'w state" where
  "cp dbutils from to recurse s =
     (case fs_cp dbutils (world s) from to recurse of
        (r, w) \<Rightarrow> (raised r, \<lparr>world = w, trace = trace s @ [FsCp from to recurse]\<rparr>))"

section \<open>Classroom setup\<close>

text \<open>
  \<^verbatim>\<open>userhome\<close>, \<^verbatim>\<open>course_dir\<close> and \<^verbatim>\<open>working_dir\<close> come from the utility notebook
  \<^verbatim>\<open>Class-Utility-Methods\<close> and are parameters here. \<^verbatim>\<open>datasets_dir\<close> and
  \<^verbatim>\<open>source_path\<close> are computed as in the notebook.
\<close>

record config =
  userhome :: string
  course_dir :: string
  working_dir :: string

definition datasets_dir :: "config \<Rightarrow> string" where
  "datasets_dir cfg = course_dir cfg @ ''/datasets''"

definition source_path :: string where
  "source_path =
     ''wasbs://courseware@dbacademy.blob.core.windows.net/deep-learning-with-databricks/v01''"

text \<open>
  \<^verbatim>\<open>
  def path_exists(path):
      try:
          return len(dbutils.fs.ls(path)) >= 0
      except Exception:
          return False
  \<close>
  The argument \<open>ls\<close> is \<^verbatim>\<open>dbutils.fs.ls\<close> in the current world.
\<close>

definition path_exists :: "(string \<Rightarrow> 'e + FileInfo list) \<Rightarrow> string \<Rightarrow> bool" where
  "path_exists ls p = (case ls p of Inr files \<Rightarrow> int (length files) \<ge> 0 | Inl e \<Rightarrow> False)"

text \<open>
  \<^verbatim>\<open>install_datasets(reinstall=False)\<close>: the two informational prints, the test for an
  existing target, the early return, the removal of an old copy and the recursive copy.
  An exception of \<^verbatim>\<open>rm\<close> or \<^verbatim>\<open>cp\<close> is not caught and ends the function.
\<close>

definition install_datasets ::
    "('w, 'e) dbutils \<Rightarrow> config \<Rightarrow> bool \<Rightarrow> 'w state \<Rightarrow> ('e exn + unit) \<times> 'w state" where
  "install_datasets dbutils cfg reinstall s0 =
     (let min_time = ''3 min'';
          max_time = ''10 min'';
          s1 = emit (SourceIs source_path) s0;
          target_dir = datasets_dir cfg;
          s2 = emit (DatasetDirIs target_dir) s1;
          existing = path_exists (fs_ls dbutils (world s2)) target_dir
      in if \<not> reinstall \<and> existing then (Inr (), emit SkippingInstall s2)
         else
           (case (if existing then rm dbutils target_dir True (emit (Removing target_dir) s2)
                  else (Inr True, s2)) of
              (Inl e, s3) \<Rightarrow> (Inl e, s3)
            | (Inr _, s3) \<Rightarrow>
                (let s4 = emit (InstallingTo target_dir) s3;
                     s5 = emit (NoteDuration min_time max_time) s4;
                     s6 = emit InstallingDataset s5
                 in case cp dbutils source_path target_dir True s6 of
                      (Inl e, s7) \<Rightarrow> (Inl e, s7)
                    | (Inr _, s7) \<Rightarrow> (Inr (), emit InstallCompleted s7))))"

text \<open>
  \<^verbatim>\<open>list_r(path, prefix=None, results=None)\<close> walks the directory tree by recursion, so a
  listing that never bottoms out would make it run forever; the model counts recursion
  depth with a fuel argument and returns \<open>None\<close> when the fuel is used up. The \<^verbatim>\<open>for\<close>
  loop over the listing is \<open>list_r_loop\<close>. The list \<^verbatim>\<open>results\<close> is one shared object that
  every level appends to and sorts in place; the model passes it through each call.
  \<^verbatim>\<open>file.path[len(prefix):]\<close> is \<open>drop (length prefix) (path file)\<close>: Python's slice is
  empty, not an error, when the prefix is longer than the path. \<^verbatim>\<open>results.sort()\<close>
  orders strings lexicographically by character code, which is the order of
  \<open>List_Lexorder\<close> over \<open>Char_ord\<close>.
\<close>

fun list_r :: "nat \<Rightarrow> (string \<Rightarrow> 'e + FileInfo list) \<Rightarrow> string \<Rightarrow> string option
                 \<Rightarrow> string list option \<Rightarrow> ('e + string list) option"
and list_r_loop :: "nat \<Rightarrow> (string \<Rightarrow> 'e + FileInfo list) \<Rightarrow> FileInfo list \<Rightarrow> string
                 \<Rightarrow> string list \<Rightarrow> ('e + string list) option"
where
  "list_r 0 ls p prefix results = None"
| "list_r (Suc n) ls p prefix results =
     (let prefix = (case prefix of None \<Rightarrow> p | Some x \<Rightarrow> x);
          results = (case results of None \<Rightarrow> [] | Some r \<Rightarrow> r)
      in case ls p of
           Inl e \<Rightarrow> Some (Inl e)
         | Inr files \<Rightarrow>
            (case list_r_loop n ls files prefix results of
               None \<Rightarrow> None
             | Some (Inl e) \<Rightarrow> Some (Inl e)
             | Some (Inr results) \<Rightarrow> Some (Inr (sort results))))"
| "list_r_loop n ls [] prefix results = Some (Inr results)"
| "list_r_loop n ls (file # files) prefix results =
     (let data = drop (length prefix) (path file);
          results = results @ [data]
      in if isDir file
         then (case list_r n ls (path file) (Some prefix) (Some results) of
                 None \<Rightarrow> None
               | Some (Inl e) \<Rightarrow> Some (Inl e)
               | Some (Inr results) \<Rightarrow> list_r_loop n ls files prefix results)
         else list_r_loop n ls files prefix results)"

text \<open>
  The two loops of \<^verbatim>\<open>validate_datasets\<close>: the first file of one listing that is absent
  from the other is reported and the exception raised.
\<close>

definition validation_failed :: string where
  "validation_failed = ''Validation failed - see previous messages for more information.''"

fun check_extra :: "string list \<Rightarrow> string list \<Rightarrow> 'w state \<Rightarrow> ('e exn + unit) \<times> 'w state" where
  "check_extra [] remote_files s = (Inr (), s)"
| "check_extra (file # local_files) remote_files s =
     (if file \<notin> set remote_files
      then (Inl (Exception validation_failed),
            emit FixByReinstalling (emit (FoundExtraFile file) s))
      else check_extra local_files remote_files s)"

fun check_missing :: "string list \<Rightarrow> string list \<Rightarrow> 'w state \<Rightarrow> ('e exn + unit) \<times> 'w state" where
  "check_missing [] local_files s = (Inr (), s)"
| "check_missing (file # remote_files) local_files s =
     (if file \<notin> set local_files
      then (Inl (Exception validation_failed),
            emit FixByReinstalling (emit (MissingFile file) s))
      else check_missing remote_files local_files s)"

definition validate_datasets ::
    "nat \<Rightarrow> ('w, 'e) dbutils \<Rightarrow> config \<Rightarrow> 'w state \<Rightarrow> (('e exn + unit) \<times> 'w state) option" where
  "validate_datasets fuel dbutils cfg s0 =
     (let s1 = emit Validating s0 in
      case list_r fuel (fs_ls dbutils (world s1)) (datasets_dir cfg) None None of
        None \<Rightarrow> None
      | Some (Inl e) \<Rightarrow> Some (Inl (Raised e), s1)
      | Some (Inr local_files) \<Rightarrow>
         (case list_r fuel (fs_ls dbutils (world s1)) source_path None None of
            None \<Rightarrow> None
          | Some (Inl e) \<Rightarrow> Some (Inl (Raised e), s1)
          | Some (Inr remote_files) \<Rightarrow>
             (case check_extra local_files remote_files s1 of
                (Inl e, s2) \<Rightarrow> Some (Inl e, s2)
              | (Inr _, s2) \<Rightarrow>
                 (case check_missing remote_files local_files s2 of
                    (Inl e, s3) \<Rightarrow> Some (Inl e, s3)
                  | (Inr _, s3) \<Rightarrow> Some (Inr (), emit ElapsedSeconds s3)))))"

text \<open>
  \<^verbatim>\<open>str.lower()\<close> on the widget value. Only the comparison with "true" is made of the
  result, and no character outside A-Z is lowered to one of t, r, u, e.
\<close>

definition lower_char :: "char \<Rightarrow> char" where
  "lower_char c =
     (if CHR ''A'' \<le> c \<and> c \<le> CHR ''Z'' then char_of (of_char c + (32 :: nat)) else c)"

definition lower :: "string \<Rightarrow> string" where
  "lower v = map lower_char v"

text \<open>
  The installation cell:
  \<^verbatim>\<open>
  try:
      reinstall = dbutils.widgets.get("reinstall").lower() == "true"
      install_datasets(reinstall=reinstall)
  except:
      install_datasets(reinstall=False)

  validate_datasets()
  \<close>
  \<open>first_attempt\<close> is the body of the \<^verbatim>\<open>try\<close>, \<open>try_install\<close> the whole statement and
  \<open>install_and_validate\<close> the cell.
\<close>

definition first_attempt ::
    "('w, 'e) dbutils \<Rightarrow> config \<Rightarrow> 'w state \<Rightarrow> ('e exn + unit) \<times> 'w state" where
  "first_attempt dbutils cfg s =
     (case widgets_get dbutils (world s) ''reinstall'' of
        Inl e \<Rightarrow> (Inl (Raised e), s)
      | Inr v \<Rightarrow> (let reinstall = (lower v = ''true'')
                 in install_datasets dbutils cfg reinstall s))"

definition try_install ::
    "('w, 'e) dbutils \<Rightarrow> config \<Rightarrow> 'w state \<Rightarrow> ('e exn + unit) \<times> 'w state" where
  "try_install dbutils cfg s =
     (case first_attempt dbutils cfg s of
        (Inr u, s1) \<Rightarrow> (Inr u, s1)
      | (Inl e, s1) \<Rightarrow> install_datasets dbutils cfg False s1)"

definition install_and_validate ::
    "nat \<Rightarrow> ('w, 'e) dbutils \<Rightarrow> config \<Rightarrow> 'w state \<Rightarrow> (('e exn + unit) \<times> 'w state) option" where
  "install_and_validate fuel dbutils cfg s =
     (case try_install dbutils cfg s of
        (Inl e, s1) \<Rightarrow> Some (Inl e, s1)
      | (Inr _, s1) \<Rightarrow> validate_datasets fuel dbutils cfg s1)"

text \<open>
  The directory creation cell, \<^verbatim>\<open>dbutils.fs.mkdirs\<close> on \<^verbatim>\<open>userhome\<close>, \<^verbatim>\<open>course_dir\<close>
  and \<^verbatim>\<open>working_dir\<close>, and the setup sequence as a whole: the directories, then the
  installation cell. The other cells of the notebook (the module configuration, the
  experiment of the test job, the closing advertisement) call into the utility notebook
  and the tracking library and touch no file; they are left out.
\<close>

definition make_directories ::
    "('w, 'e) dbutils \<Rightarrow> config \<Rightarrow> 'w state \<Rightarrow> ('e exn + unit) \<times> 'w state" where
  "make_directories dbutils cfg s =
     (case mkdirs dbutils (userhome cfg) s of
        (Inl e, s1) \<Rightarrow> (Inl e, s1)
      | (Inr _, s1) \<Rightarrow>
         (case mkdirs dbutils (course_dir cfg) s1 of
            (Inl e, s2) \<Rightarrow> (Inl e, s2)
          | (Inr _, s2) \<Rightarrow>
             (case mkdirs dbutils (working_dir cfg) s2 of
                (Inl e, s3) \<Rightarrow> (Inl e, s3)
              | (Inr _, s3) \<Rightarrow> (Inr (), s3))))"

definition classroom_setup ::
    "nat \<Rightarrow> ('w, 'e) dbutils \<Rightarrow> config \<Rightarrow> 'w state \<Rightarrow> (('e exn + unit) \<times> 'w state) option" where
  "classroom_setup fuel dbutils cfg s =
     (case make_directories dbutils cfg s of
        (Inl e, s1) \<Rightarrow> Some (Inl e, s1)
      | (Inr _, s1) \<Rightarrow> install_and_validate fuel dbutils cfg s1)"

section \<open>Experiment tracking\<close>

text \<open>
  \<^verbatim>\<open>track_experiments\<close> of the notebook \<^verbatim>\<open>DL 04 - MLflow.py\<close>. A Python dictionary is
  an association list in insertion order with one entry per key; \<open>AList.update\<close> is the
  assignment \<^verbatim>\<open>d[k] = v\<close> (an existing key keeps its place and takes the new value, a
  new key goes to the end), so the display \<^verbatim>\<open>{**a, **b, **c}\<close> is three rounds of
  assignments into an empty dictionary.
\<close>

definition dict_unpack :: "('k \<times> 'v) list \<Rightarrow> ('k \<times> 'v) list \<Rightarrow> ('k \<times> 'v) list" where
  "dict_unpack d items = foldl (\<lambda>d kv. AList.update (fst kv) (snd kv) d) d items"

definition merge_kwargs ::
    "('k \<times> 'v) list \<Rightarrow> ('k \<times> 'v) list \<Rightarrow> ('k \<times> 'v) list \<Rightarrow> ('k \<times> 'v) list" where
  "merge_kwargs compile_kwargs fit_kwargs optional_params =
     dict_unpack (dict_unpack (dict_unpack [] compile_kwargs) fit_kwargs) optional_params"

text \<open>
  The Keras model is a library object: what \<^verbatim>\<open>compile\<close> and \<^verbatim>\<open>fit\<close> do with their
  keyword arguments is a parameter, \<^verbatim>\<open>fit\<close> returning \<^verbatim>\<open>history.history\<close> (metric name
  to the values per epoch), and \<open>layers\<close> holds the \<^verbatim>\<open>output_shape\<close> of each layer, a
  tuple whose entries are integers or \<^verbatim>\<open>None\<close>.
\<close>

record ('e, 'v, 'm) keras_model =
  compile :: "(string \<times> 'v) list \<Rightarrow> 'e + unit"
  fit :: "(string \<times> 'v) list \<Rightarrow> 'e + (string \<times> 'm list) list"
  layers :: "int option list list"

text \<open>
  The tracking library is a parameter as well: each of its calls acts on the tracking
  store \<open>'t\<close> (the runs and what has been logged to them) and either returns the new store
  or raises. In particular \<^verbatim>\<open>mlflow.log_param\<close> may refuse a parameter, as the library
  does for a key that the run already holds with another value. A logged parameter value
  is either a keyword argument's value or a dimension of a layer's output shape.
\<close>

datatype 'v logged = KwArg 'v | Dim "int option"

record ('t, 'e, 'v, 'm) mlflow =
  start_run :: "'t \<Rightarrow> string \<Rightarrow> 'e + 't"
  log_param :: "'t \<Rightarrow> string \<Rightarrow> 'v logged \<Rightarrow> 'e + 't"
  log_metric :: "'t \<Rightarrow> string \<Rightarrow> 'm \<Rightarrow> nat \<Rightarrow> 'e + 't"
  log_model :: "'t \<Rightarrow> string \<Rightarrow> 'e + 't"
  log_figure :: "'t \<Rightarrow> string \<Rightarrow> 'e + 't"

text \<open>
  The plotting calls of \<^verbatim>\<open>view_model_loss\<close> and the \<^verbatim>\<open>plt.gcf()\<close> after it, each of
  which returns or raises; \<^verbatim>\<open>plt.plot\<close> is given the loss values.
\<close>

record ('e, 'm) pyplot =
  plt_clf :: "'e + unit"
  plt_plot :: "'m list \<Rightarrow> 'e + unit"
  plt_title :: "'e + unit"
  plt_ylabel :: "'e + unit"
  plt_xlabel :: "'e + unit"
  plt_legend :: "'e + unit"
  plt_gcf :: "'e + unit"

text \<open>
  The tracking calls that returned, in order, are kept beside the store. A call that
  raises leaves both as they were and its exception ends the function.
\<close>

datatype ('v, 'm) mlflow_call =
    StartRun string
  | LogParam string "'v logged"
  | LogMetric string 'm nat
  | LogModel string
  | LogFigure string

record ('t, 'v, 'm) tracking =
  store :: 't
  calls :: "('v, 'm) mlflow_call list"

definition tracked ::
    "'e + 't \<Rightarrow> ('v, 'm) mlflow_call \<Rightarrow> ('t, 'v, 'm) tracking
      \<Rightarrow> ('e exn + unit) \<times> ('t, 'v, 'm) tracking" where
  "tracked outcome call st =
     (case outcome of
        Inl e \<Rightarrow> (Inl (Raised e), st)
      | Inr t \<Rightarrow> (Inr (), \<lparr>store = t, calls = calls st @ [call]\<rparr>))"

text \<open>\<^verbatim>\<open>str(i)\<close> for a non-negative integer, as the f-string of the layer loop needs it.\<close>

fun str_nat :: "nat \<Rightarrow> string" where
  "str_nat n =
     (if n < 10 then [char_of (48 + n)] else str_nat (n div 10) @ [char_of (48 + n mod 10)])"

declare str_nat.simps [simp del]

text \<open>
  \<^verbatim>\<open>
  for param_key, param_value in {**compile_kwargs, **fit_kwargs, **optional_params}.items():
    if param_key not in ["x", "y"]:
      mlflow.log_param(param_key, param_value)
  \<close>
\<close>

fun log_params ::
    "('t, 'e, 'v, 'm) mlflow \<Rightarrow> (string \<times> 'v) list \<Rightarrow> ('t, 'v, 'm) tracking
      \<Rightarrow> ('e exn + unit) \<times> ('t, 'v, 'm) tracking" where
  "log_params mlflow [] st = (Inr (), st)"
| "log_params mlflow ((param_key, param_value) # items) st =
     (if param_key \<notin> set [''x'', ''y'']
      then (case tracked (log_param mlflow (store st) param_key (KwArg param_value))
                         (LogParam param_key (KwArg param_value)) st of
              (Inl e, st') \<Rightarrow> (Inl e, st')
            | (Inr _, st') \<Rightarrow> log_params mlflow items st')
      else log_params mlflow items st)"

text \<open>
  \<^verbatim>\<open>
  for key, values in history.history.items():
    for i, v in enumerate(values):
      mlflow.log_metric(key, v, step=i)
  \<close>
\<close>

fun log_metric_values ::
    "('t, 'e, 'v, 'm) mlflow \<Rightarrow> string \<Rightarrow> nat \<Rightarrow> 'm list \<Rightarrow> ('t, 'v, 'm) tracking
      \<Rightarrow> ('e exn + unit) \<times> ('t, 'v, 'm) tracking" where
  "log_metric_values mlflow key i [] st = (Inr (), st)"
| "log_metric_values mlflow key i (v # values) st =
     (case tracked (log_metric mlflow (store st) key v i) (LogMetric key v i) st of
        (Inl e, st') \<Rightarrow> (Inl e, st')
      | (Inr _, st') \<Rightarrow> log_metric_values mlflow key (Suc i) values st')"

fun log_metrics ::
    "('t, 'e, 'v, 'm) mlflow \<Rightarrow> (string \<times> 'm list) list \<Rightarrow> ('t, 'v, 'm) tracking
      \<Rightarrow> ('e exn + unit) \<times> ('t, 'v, 'm) tracking" where
  "log_metrics mlflow [] st = (Inr (), st)"
| "log_metrics mlflow ((key, values) # items) st =
     (case log_metric_values mlflow key 0 values st of
        (Inl e, st') \<Rightarrow> (Inl e, st')
      | (Inr _, st') \<Rightarrow> log_metrics mlflow items st')"

text \<open>
  \<^verbatim>\<open>
  for i, layer in enumerate(model.layers):
    mlflow.log_param(f"hidden_layer_{i}_units", layer.output_shape[1])
  \<close>
  Indexing a shape that has no second entry raises \<^verbatim>\<open>IndexError\<close>, before the call.
\<close>

fun log_layers ::
    "('t, 'e, 'v, 'm) mlflow \<Rightarrow> nat \<Rightarrow> int option list list \<Rightarrow> ('t, 'v, 'm) tracking
      \<Rightarrow> ('e exn + unit) \<times> ('t, 'v, 'm) tracking" where
  "log_layers mlflow i [] st = (Inr (), st)"
| "log_layers mlflow i (output_shape # rest) st =
     (if length output_shape \<le> 1 then (Inl IndexError, st)
      else (case tracked (log_param mlflow (store st) (''hidden_layer_'' @ str_nat i @ ''_units'')
                                    (Dim (output_shape ! 1)))
                         (LogParam (''hidden_layer_'' @ str_nat i @ ''_units'')
                                   (Dim (output_shape ! 1))) st of
              (Inl e, st') \<Rightarrow> (Inl e, st')
            | (Inr _, st') \<Rightarrow> log_layers mlflow (Suc i) rest st'))"

text \<open>
  \<^verbatim>\<open>
  def view_model_loss(history):
    plt.clf()
    plt.plot(history.history["loss"], label="train_loss")
    plt.title("Model Loss")
    plt.ylabel("Loss")
    plt.xlabel("Epoch")
    plt.legend()
    return plt
  \<close>
  Reading \<^verbatim>\<open>history.history["loss"]\<close> is a \<^verbatim>\<open>KeyError\<close> when the history has no such
  entry.
\<close>

definition view_model_loss ::
    "('e, 'm) pyplot \<Rightarrow> (string \<times> 'm list) list \<Rightarrow> 'e exn + unit" where
  "view_model_loss plt history =
     (case plt_clf plt of
        Inl e \<Rightarrow> Inl (Raised e)
      | Inr _ \<Rightarrow>
         (case map_of history ''loss'' of
            None \<Rightarrow> Inl (KeyError ''loss'')
          | Some loss \<Rightarrow>
             (case plt_plot plt loss of
                Inl e \<Rightarrow> Inl (Raised e)
              | Inr _ \<Rightarrow>
                 (case plt_title plt of
                    Inl e \<Rightarrow> Inl (Raised e)
                  | Inr _ \<Rightarrow>
                     (case plt_ylabel plt of
                        Inl e \<Rightarrow> Inl (Raised e)
                      | Inr _ \<Rightarrow>
                         (case plt_xlabel plt of
                            Inl e \<Rightarrow> Inl (Raised e)
                          | Inr _ \<Rightarrow> raised (plt_legend plt)))))))"

text \<open>
  The function itself, started on the tracking store \<open>t0\<close>. \<open>model\<close> is the outcome of
  calling the builder \<^verbatim>\<open>model()\<close>. The result is how the function ended, with the store
  it left and the tracking calls that returned. An exception inside the \<^verbatim>\<open>with\<close> block
  leaves the block and the function; what the library does to the run on the way out is
  not represented.
\<close>

definition track_experiments ::
    "('t, 'e, 'v, 'm) mlflow \<Rightarrow> ('e, 'm) pyplot \<Rightarrow> string \<Rightarrow> 'e + ('e, 'v, 'm) keras_model
      \<Rightarrow> (string \<times> 'v) list \<Rightarrow> (string \<times> 'v) list \<Rightarrow> (string \<times> 'v) list \<Rightarrow> 't
      \<Rightarrow> ('e exn + unit) \<times> ('t, 'v, 'm) tracking" where
  "track_experiments mlflow plt run_name model compile_kwargs fit_kwargs optional_params t0 =
     (case tracked (start_run mlflow t0 run_name) (StartRun run_name)
                   \<lparr>store = t0, calls = []\<rparr> of
        (Inl e, st) \<Rightarrow> (Inl e, st)
      | (Inr _, st0) \<Rightarrow>
     (case model of
        Inl e \<Rightarrow> (Inl (Raised e), st0)
      | Inr m \<Rightarrow>
     (case compile m compile_kwargs of
        Inl e \<Rightarrow> (Inl (Raised e), st0)
      | Inr _ \<Rightarrow>
     (case fit m fit_kwargs of
        Inl e \<Rightarrow> (Inl (Raised e), st0)
      | Inr history \<Rightarrow>
     (case log_params mlflow (merge_kwargs compile_kwargs fit_kwargs optional_params) st0 of
        (Inl e, st1) \<Rightarrow> (Inl e, st1)
      | (Inr _, st1) \<Rightarrow>
     (case log_metrics mlflow history st1 of
        (Inl e, st2) \<Rightarrow> (Inl e, st2)
      | (Inr _, st2) \<Rightarrow>
     (case log_layers mlflow 0 (layers m) st2 of
        (Inl e, st3) \<Rightarrow> (Inl e, st3)
      | (Inr _, st3) \<Rightarrow>
     (case tracked (log_model mlflow (store st3) ''model'') (LogModel ''model'') st3 of
        (Inl e, st4) \<Rightarrow> (Inl e, st4)
      | (Inr _, st4) \<Rightarrow>
     (case view_model_loss plt history of
        Inl e \<Rightarrow> (Inl e, st4)
      | Inr _ \<Rightarrow>
     (case plt_gcf plt of
        Inl e \<Rightarrow> (Inl (Raised e), st4)
      | Inr _ \<Rightarrow>
          tracked (log_figure mlflow (store st4) ''train-validation-loss.png'')
                  (LogFigure ''train-validation-loss.png'') st4))))))))))"

text \<open>The parameters among a sequence of tracking calls, as key and value.\<close>

fun logged_params :: "('v, 'm) mlflow_call list \<Rightarrow> (string \<times> 'v logged) list" where
  "logged_params [] = []"
| "logged_params (LogParam k v # rest) = (k, v) # logged_params rest"
| "logged_params (_ # rest) = logged_params rest"

text \<open>One list is an initial segment of another.\<close>

definition initial_segment :: "'a list \<Rightarrow> 'a list \<Rightarrow> bool" where
  "initial_segment xs ys = (take (length xs) ys = xs)"

section \<open>File system trees\<close>

text \<open>
  What it means for the listing function to describe a finite directory tree. A node is an
  entry of some listing together with the nodes below it; \<open>fs_tree ls p ks\<close> says that
  listing \<open>p\<close> gives the entries of \<open>ks\<close> in order, that listing each directory among them
  gives its children, and so on, and that a file has nothing below it.
\<close>

datatype fs_node = FsNode (info: FileInfo) (children: "fs_node list")

fun subtrees_ok :: "(string \<Rightarrow> 'e + FileInfo list) \<Rightarrow> fs_node list \<Rightarrow> bool" where
  "subtrees_ok ls [] = True"
| "subtrees_ok ls (FsNode i cs # ks) =
     ((if isDir i then ls (path i) = Inr (map info cs) \<and> subtrees_ok ls cs else cs = [])
      \<and> subtrees_ok ls ks)"

definition fs_tree :: "(string \<Rightarrow> 'e + FileInfo list) \<Rightarrow> string \<Rightarrow> fs_node list \<Rightarrow> bool" where
  "fs_tree ls p ks = (ls p = Inr (map info ks) \<and> subtrees_ok ls ks)"

text \<open>
  All entries at every depth, in the order of the walk, and the number of nested
  directory levels below the root.
\<close>

fun descendants :: "fs_node list \<Rightarrow> FileInfo list" where
  "descendants [] = []"
| "descendants (FsNode i cs # ks) = i # descendants cs @ descendants ks"

fun depth :: "fs_node list \<Rightarrow> nat" where
  "depth [] = 0"
| "depth (FsNode i cs # ks) = max (if isDir i then Suc (depth cs) else 0) (depth ks)"

definition relative_paths :: "string \<Rightarrow> fs_node list \<Rightarrow> string list" where
  "relative_paths prefix ks = map (\<lambda>i. drop (length prefix) (path i)) (descendants ks)"

text \<open>The file system calls in a trace, without the console output.\<close>

fun fs_calls :: "event list \<Rightarrow> event list" where
  "fs_calls [] = []"
| "fs_calls (Print m # es) = fs_calls es"
| "fs_calls (e # es) = e # fs_calls es"

text \<open>
  Whether a trace shows that \<^verbatim>\<open>validate_datasets\<close> was entered (its first statement
  is the print of \<open>Validating\<close>), the console output of the early return of
  \<^verbatim>\<open>install_datasets\<close>, and the value the installation cell computes for \<^verbatim>\<open>reinstall\<close>
  when reading the widget does not raise.
\<close>

definition validation_started :: "event list \<Rightarrow> bool" where
  "validation_started tr = (Print Validating \<in> set tr)"

definition skip_trace :: "config \<Rightarrow> event list" where
  "skip_trace cfg = [Print (SourceIs source_path), Print (DatasetDirIs (datasets_dir cfg)),
                     Print SkippingInstall]"

definition reinstall_requested :: "('w, 'e) dbutils \<Rightarrow> 'w \<Rightarrow> bool" where
  "reinstall_requested dbutils w =
     (case widgets_get dbutils w ''reinstall'' of Inl e \<Rightarrow> False | Inr v \<Rightarrow> lower v = ''true'')"

section \<open>Assumptions on the platform\<close>

text \<open>
  Modelled from the spec: \<^verbatim>\<open>dbutils.fs.mkdirs\<close>, a call of the platform that the
  repository does not contain. The spec describes the directory creation of the setup as
  idempotent; this is read as: creating a directory that can already be listed returns
  normally and leaves the world as it is.
\<close>

definition mkdirs_idempotent :: "('w, 'e) dbutils \<Rightarrow> bool" where
  "mkdirs_idempotent dbutils =
     (\<forall>w dir. path_exists (fs_ls dbutils w) dir
        \<longrightarrow> (\<exists>b. fs_mkdirs dbutils w dir = (Inr b, w)))"

text \<open>
  Modelled from the spec: \<^verbatim>\<open>dbutils.fs.cp\<close>, a call of the platform that the repository
  does not contain. The spec speaks of a dataset copy into the target directory; this is
  read as: after a recursive copy that returns normally, the target can be listed.
\<close>

definition cp_creates_target :: "('w, 'e) dbutils \<Rightarrow> bool" where
  "cp_creates_target dbutils =
     (\<forall>w from to b w'. fs_cp dbutils w from to True = (Inr b, w')
        \<longrightarrow> path_exists (fs_ls dbutils w') to)"

section \<open>A sample platform\<close>

text \<open>
  A small file system on which the model can be evaluated: the world is a table from each
  directory to its listing. Listing a path that is not in the table raises; \<^verbatim>\<open>mkdirs\<close>
  adds an empty directory unless the path is there already; \<^verbatim>\<open>rm\<close> drops a directory
  and all that lies below it; \<^verbatim>\<open>cp\<close> raises when the source is missing and otherwise
  copies the source and all that lies below it to the new place. The widget
  \<^verbatim>\<open>reinstall\<close> is either undefined or holds a string.
\<close>

type_synonym sample_fs = "(string \<times> FileInfo list) list"

definition sample_under :: "string \<Rightarrow> string \<Rightarrow> bool" where
  "sample_under dir p = (p = dir \<or> take (Suc (length dir)) p = dir @ ''/'')"

definition sample_rebase :: "string \<Rightarrow> string \<Rightarrow> string \<Rightarrow> string" where
  "sample_rebase from to p = to @ drop (length from) p"

definition sample_ls :: "sample_fs \<Rightarrow> string \<Rightarrow> string + FileInfo list" where
  "sample_ls w p =
     (case map_of w p of None \<Rightarrow> Inl ''FileNotFoundException'' | Some files \<Rightarrow> Inr files)"

definition sample_mkdirs :: "sample_fs \<Rightarrow> string \<Rightarrow> (string + bool) \<times> sample_fs" where
  "sample_mkdirs w p = (if map_of w p = None then (Inr True, w @ [(p, [])]) else (Inr True, w))"

definition sample_rm :: "sample_fs \<Rightarrow> string \<Rightarrow> bool \<Rightarrow> (string + bool) \<times> sample_fs" where
  "sample_rm w p recurse =
     (if map_of w p = None then (Inr False, w)
      else (Inr True, filter (\<lambda>e. \<not> sample_under p (fst e)) w))"

definition sample_cp ::
    "sample_fs \<Rightarrow> string \<Rightarrow> string \<Rightarrow> bool \<Rightarrow> (string + bool) \<times> sample_fs" where
  "sample_cp w from to recurse =
     (case map_of w from of
        None \<Rightarrow> (Inl ''FileNotFoundException'', w)
      | Some files \<Rightarrow>
          (Inr True,
           (to, map (\<lambda>f. f\<lparr>path := sample_rebase from to (path f)\<rparr>) files)
           # map (\<lambda>e. (sample_rebase from to (fst e),
                        map (\<lambda>f. f\<lparr>path := sample_rebase from to (path f)\<rparr>) (snd e)))
                 (filter (\<lambda>e. sample_under from (fst e) \<and> fst e \<noteq> from) w)
           @ w))"

definition sample_dbutils :: "string option \<Rightarrow> (sample_fs, string) dbutils" where
  "sample_dbutils widget =
     \<lparr>fs_ls = sample_ls, fs_mkdirs = sample_mkdirs, fs_rm = sample_rm, fs_cp = sample_cp,
      widgets_get = (\<lambda>w name. case widget of
                        None \<Rightarrow> Inl ''InputWidgetNotDefined''
                      | Some v \<Rightarrow> if name = ''reinstall'' then Inr v
                                  else Inl ''InputWidgetNotDefined'')\<rparr>"

definition sample_config :: config where
  "sample_config = \<lparr>userhome = ''dbfs:/user/ada'', course_dir = ''dbfs:/user/ada/dl'',
                    working_dir = ''dbfs:/user/ada/dl/work''\<rparr>"

text \<open>
  A dataset of one file and one directory holding one file, as a table and as a tree; the
  remote store alone, the world after an installation, and a world whose local copy has
  an extra file and lacks the directory.
\<close>

definition sample_files :: "string \<Rightarrow> sample_fs" where
  "sample_files base =
     [(base, [\<lparr>path = base @ ''/README.md'', isDir = False\<rparr>,
              \<lparr>path = base @ ''/img/'', isDir = True\<rparr>]),
      (base @ ''/img/'', [\<lparr>path = base @ ''/img/a.png'', isDir = False\<rparr>])]"

definition sample_tree :: "string \<Rightarrow> fs_node list" where
  "sample_tree base =
     [FsNode \<lparr>path = base @ ''/README.md'', isDir = False\<rparr> [],
      FsNode \<lparr>path = base @ ''/img/'', isDir = True\<rparr>
        [FsNode \<lparr>path = base @ ''/img/a.png'', isDir = False\<rparr> []]]"

definition sample_remote :: sample_fs where
  "sample_remote = sample_files source_path"

definition sample_remote_tree :: "fs_node list" where
  "sample_remote_tree = sample_tree source_path"

definition sample_installed :: sample_fs where
  "sample_installed = sample_files ''dbfs:/user/ada/dl/datasets'' @ sample_remote"

definition sample_stale :: sample_fs where
  "sample_stale =
     [(''dbfs:/user/ada/dl/datasets'',
       [\<lparr>path = ''dbfs:/user/ada/dl/datasets/README.md'', isDir = False\<rparr>,
        \<lparr>path = ''dbfs:/user/ada/dl/datasets/old.csv'', isDir = False\<rparr>])] @ sample_remote"

definition sample_stale_tree :: "fs_node list" where
  "sample_stale_tree =
     [FsNode \<lparr>path = ''dbfs:/user/ada/dl/datasets/README.md'', isDir = False\<rparr> [],
      FsNode \<lparr>path = ''dbfs:/user/ada/dl/datasets/old.csv'', isDir = False\<rparr> []]"

text \<open>
  The first tracked run of the notebook: the model of \<^verbatim>\<open>build_model\<close> has three dense
  layers of 20, 20 and 1 units, and the keyword arguments are those of the run "ADAM".
  Argument values are kept abstract enough to tell strings, numbers, lists and the
  training arrays apart; the metric values stand for the numbers a fit reports.
\<close>

datatype pyvalue = PyStr string | PyInt int | PyStrList "string list" | PyArray string

definition sample_model :: "(string, pyvalue, int) keras_model" where
  "sample_model =
     \<lparr>compile = (\<lambda>kwargs. Inr ()),
      fit = (\<lambda>kwargs. Inr [(''loss'', [5, 3]), (''mse'', [5, 3]), (''mae'', [2, 1])]),
      layers = [[None, Some 20], [None, Some 20], [None, Some 1]]\<rparr>"

definition sample_compile_kwargs :: "(string \<times> pyvalue) list" where
  "sample_compile_kwargs =
     [(''optimizer'', PyStr ''adam''), (''loss'', PyStr ''mse''),
      (''metrics'', PyStrList [''mse'', ''mae''])]"

definition sample_fit_kwargs :: "(string \<times> pyvalue) list" where
  "sample_fit_kwargs =
     [(''x'', PyArray ''X_train''), (''y'', PyArray ''y_train''), (''epochs'', PyInt 10),
      (''verbose'', PyInt 2), (''batch_size'', PyInt 64)]"

text \<open>
  A sample tracking store: the parameters of the one run, by key. Logging a parameter
  raises when the key is there with another value, and stores the value otherwise; the
  other tracking calls and the plotting calls return.
\<close>

definition sample_log_param ::
    "(string \<times> pyvalue logged) list \<Rightarrow> string \<Rightarrow> pyvalue logged
      \<Rightarrow> string + (string \<times> pyvalue logged) list" where
  "sample_log_param t k v =
     (case map_of t k of
        None \<Rightarrow> Inr (t @ [(k, v)])
      | Some old \<Rightarrow> if old = v then Inr t else Inl ''MlflowException'')"

definition sample_mlflow :: "((string \<times> pyvalue logged) list, string, pyvalue, int) mlflow" where
  "sample_mlflow =
     \<lparr>start_run = (\<lambda>t run_name. Inr []),
      log_param = sample_log_param,
      log_metric = (\<lambda>t key v step. Inr t),
      log_model = (\<lambda>t artifact_path. Inr t),
      log_figure = (\<lambda>t artifact_file. Inr t)\<rparr>"

definition sample_pyplot :: "(string, int) pyplot" where
  "sample_pyplot =
     \<lparr>plt_clf = Inr (), plt_plot = (\<lambda>values. Inr ()), plt_title = Inr (), plt_ylabel = Inr (),
      plt_xlabel = Inr (), plt_legend = Inr (), plt_gcf = Inr ()\<rparr>"

section \<open>Basic facts\<close>

lemma world_emit [simp]: "world (emit m s) = world s"
  by (simp add: emit_def)

lemma trace_emit [simp]: "trace (emit m s) = trace s @ [Print m]"
  by (simp add: emit_def)

lemma fs_calls_append [simp]: "fs_calls (xs @ ys) = fs_calls xs @ fs_calls ys"
  by (induction xs rule: fs_calls.induct) simp_all

lemma validation_started_append [simp]:
  "validation_started (tr @ tr') = (validation_started tr \<or> validation_started tr')"
  by (auto simp add: validation_started_def)

section \<open>path_exists\<close>

text \<open>
  C6. \<^verbatim>\<open>path_exists\<close> returns True exactly when the listing succeeds and False exactly
  when \<^verbatim>\<open>dbutils.fs.ls\<close> raises; in particular it returns True for a directory whose
  listing is empty, since the length of a list is never negative.
\<close>

theorem path_exists_iff_listing_succeeds:
  "(path_exists ls p = (\<exists>files. ls p = Inr files))
   \<and> ((\<not> path_exists ls p) = (\<exists>e. ls p = Inl e))
   \<and> path_exists (ls(p := Inr [])) p"
  by (cases "ls p") (simp_all add: path_exists_def)

section \<open>list_r\<close>

text \<open>
  The loop over a listing adds the relative paths of all the entries below it to the
  results it was given, as a multiset: the recursive calls sort the shared list in
  between, so the order is settled only by the last sort. Fuel above the depth of the tree
  is enough for the walk to finish.
\<close>

lemma list_r_loop_tree:
  "subtrees_ok ls ks \<Longrightarrow> depth ks \<le> n \<Longrightarrow>
   \<exists>rs. list_r_loop n ls (map info ks) prefix results = Some (Inr rs)
      \<and> mset rs = mset results + mset (relative_paths prefix ks)"
proof (induction ks arbitrary: n results rule: descendants.induct)
  case 1
  then show ?case by (simp add: relative_paths_def)
next
  case (2 i cs ks)
  let ?res1 = "results @ [drop (length prefix) (path i)]"
  from "2.prems" have ks_ok: "subtrees_ok ls ks" and ks_depth: "depth ks \<le> n"
    by simp_all
  show ?case
  proof (cases "isDir i")
    case False
    with "2.prems" have cs: "cs = []" by simp
    from "2.IH"(2) [OF ks_ok ks_depth, of ?res1]
    obtain rs where rs: "list_r_loop n ls (map info ks) prefix ?res1 = Some (Inr rs)"
      and ms: "mset rs = mset ?res1 + mset (relative_paths prefix ks)"
      by blast
    from False rs have "list_r_loop n ls (map info (FsNode i cs # ks)) prefix results = Some (Inr rs)"
      by simp
    moreover from ms cs
    have "mset rs = mset results + mset (relative_paths prefix (FsNode i cs # ks))"
      by (simp add: relative_paths_def)
    ultimately show ?thesis by blast
  next
    case True
    with "2.prems" have ls_i: "ls (path i) = Inr (map info cs)" and cs_ok: "subtrees_ok ls cs"
      by simp_all
    from "2.prems"(2) True obtain m where n: "n = Suc m" and cs_depth: "depth cs \<le> m"
      by (cases n) simp_all
    from "2.IH"(1) [OF cs_ok cs_depth, of ?res1]
    obtain rs1 where rs1: "list_r_loop m ls (map info cs) prefix ?res1 = Some (Inr rs1)"
      and ms1: "mset rs1 = mset ?res1 + mset (relative_paths prefix cs)"
      by blast
    from "2.IH"(2) [OF ks_ok ks_depth, of "sort rs1"]
    obtain rs where rs: "list_r_loop n ls (map info ks) prefix (sort rs1) = Some (Inr rs)"
      and ms: "mset rs = mset (sort rs1) + mset (relative_paths prefix ks)"
      by blast
    from ls_i rs1
    have inner: "list_r n ls (path i) (Some prefix) (Some ?res1) = Some (Inr (sort rs1))"
      by (simp add: n)
    from True inner rs
    have "list_r_loop n ls (map info (FsNode i cs # ks)) prefix results = Some (Inr rs)"
      by simp
    moreover from ms ms1
    have "mset rs = mset results + mset (relative_paths prefix (FsNode i cs # ks))"
      by (simp add: relative_paths_def)
    ultimately show ?thesis by blast
  qed
qed

lemma list_r_tree:
  assumes "fs_tree ls p ks" and "depth ks < fuel"
  shows "list_r fuel ls p prefix None =
           Some (Inr (sort (relative_paths (case prefix of None \<Rightarrow> p | Some q \<Rightarrow> q) ks)))"
proof -
  let ?pre = "case prefix of None \<Rightarrow> p | Some q \<Rightarrow> q"
  from assms(2) obtain m where n: "fuel = Suc m" and d: "depth ks \<le> m"
    by (cases fuel) simp_all
  from assms(1) have ls_p: "ls p = Inr (map info ks)" and ok: "subtrees_ok ls ks"
    by (simp_all add: fs_tree_def)
  from list_r_loop_tree [OF ok d, of ?pre "[]"]
  obtain rs where rs: "list_r_loop m ls (map info ks) ?pre [] = Some (Inr rs)"
    and ms: "mset rs = mset (relative_paths ?pre ks)"
    by auto
  from ms have "sort rs = sort (relative_paths ?pre ks)"
    by (metis properties_for_sort sorted_sort mset_sort)
  with ls_p rs show ?thesis by (simp add: n)
qed

lemma sample_remote_is_tree: "fs_tree (sample_ls sample_remote) source_path sample_remote_tree"
  by (simp add: fs_tree_def sample_ls_def sample_remote_def sample_remote_tree_def
      sample_files_def sample_tree_def)

lemma sample_remote_depth: "depth sample_remote_tree < 2"
  by (simp add: sample_remote_tree_def sample_tree_def)

text \<open>
  C7. For every file system tree rooted at \<open>p\<close>, \<^verbatim>\<open>list_r(p)\<close> returns (with enough
  fuel it does return, without an exception) a list that is sorted in ascending order and
  holds, for each descendant of the root at any depth, its path with the first
  \<^verbatim>\<open>len(prefix)\<close> characters removed, once per descendant; the prefix is the root path
  unless one is passed. Where the paths of the listing extend the prefix, removing that
  many characters strips the prefix.
\<close>

theorem list_r_sorted_descendants:
  assumes "fs_tree ls p ks" and "depth ks < fuel"
  shows "\<exists>rs. list_r fuel ls p prefix None = Some (Inr rs) \<and> sorted rs
           \<and> mset rs = mset (relative_paths (case prefix of None \<Rightarrow> p | Some q \<Rightarrow> q) ks)"
  using list_r_tree [OF assms, of prefix] by simp

theorem list_r_sorted_descendants_witness:
  "fs_tree (sample_ls sample_remote) source_path sample_remote_tree
   \<and> depth sample_remote_tree < 2
   \<and> (\<exists>rs. list_r 2 (sample_ls sample_remote) source_path None None = Some (Inr rs)
         \<and> sorted rs
         \<and> mset rs = mset [''/README.md'', ''/img/'', ''/img/a.png''])"
proof -
  have rel: "relative_paths source_path sample_remote_tree = [''/README.md'', ''/img/'', ''/img/a.png'']"
    by (simp add: relative_paths_def sample_remote_tree_def sample_tree_def)
  show ?thesis
    using list_r_sorted_descendants [OF sample_remote_is_tree sample_remote_depth, of None]
      sample_remote_is_tree sample_remote_depth
    by (simp add: rel)
qed

section \<open>validate_datasets\<close>

text \<open>
  Each of the two loops returns normally exactly when every file of its first list occurs
  in the second, raises the validation exception otherwise, and touches neither the world
  nor the file system calls of the trace.
\<close>

lemma check_extra_result:
  "check_extra xs ys s = (r, s') \<Longrightarrow>
     world s' = world s \<and> fs_calls (trace s') = fs_calls (trace s)
     \<and> (r = Inr ()) = (set xs \<subseteq> set ys)
     \<and> (r = Inl (Exception validation_failed)) = (\<not> set xs \<subseteq> set ys)"
  by (induction xs) (auto split: if_splits)

lemma check_missing_result:
  "check_missing xs ys s = (r, s') \<Longrightarrow>
     world s' = world s \<and> fs_calls (trace s') = fs_calls (trace s)
     \<and> (r = Inr ()) = (set xs \<subseteq> set ys)
     \<and> (r = Inl (Exception validation_failed)) = (\<not> set xs \<subseteq> set ys)"
  by (induction xs) (auto split: if_splits)

lemma check_extra_trace:
  "check_extra xs ys s = (r, s') \<Longrightarrow> set (trace s) \<subseteq> set (trace s')"
  by (induction xs) (auto split: if_splits)

lemma check_missing_trace:
  "check_missing xs ys s = (r, s') \<Longrightarrow> set (trace s) \<subseteq> set (trace s')"
  by (induction xs) (auto split: if_splits)

lemma check_extra_any_state:
  fixes s :: "'w state" and t :: "'w state"
  assumes "check_extra xs ys s = (r :: 'e exn + unit, s')"
  shows "\<exists>t'. check_extra xs ys t = (r, t')"
proof -
  obtain r' t' where t: "check_extra xs ys t = (r' :: 'e exn + unit, t')"
    by (cases "check_extra xs ys t :: ('e exn + unit) \<times> 'w state") blast
  from check_extra_result [OF assms] check_extra_result [OF t] have "r' = r"
    by (cases "set xs \<subseteq> set ys") simp_all
  with t show ?thesis by blast
qed

lemma check_missing_any_state:
  fixes s :: "'w state" and t :: "'w state"
  assumes "check_missing xs ys s = (r :: 'e exn + unit, s')"
  shows "\<exists>t'. check_missing xs ys t = (r, t')"
proof -
  obtain r' t' where t: "check_missing xs ys t = (r' :: 'e exn + unit, t')"
    by (cases "check_missing xs ys t :: ('e exn + unit) \<times> 'w state") blast
  from check_missing_result [OF assms] check_missing_result [OF t] have "r' = r"
    by (cases "set xs \<subseteq> set ys") simp_all
  with t show ?thesis by blast
qed

lemma validate_datasets_world:
  fixes dbutils :: "('w, 'e) dbutils"
  assumes "validate_datasets fuel dbutils cfg s = Some (r, s')"
  shows "world s' = world s \<and> fs_calls (trace s') = fs_calls (trace s)"
  using assms unfolding validate_datasets_def Let_def
  by (auto split: option.splits sum.splits prod.splits
      dest!: check_extra_result check_missing_result)

lemma validate_datasets_same_world:
  fixes dbutils :: "('w, 'e) dbutils"
  assumes "validate_datasets fuel dbutils cfg s = Some (r, s')" and "world t = world s"
  shows "\<exists>t'. validate_datasets fuel dbutils cfg t = Some (r, t')"
proof (cases "list_r fuel (fs_ls dbutils (world s)) (datasets_dir cfg) None None")
  case None
  with assms(1) show ?thesis by (simp add: validate_datasets_def)
next
  case (Some l)
  note l = Some
  show ?thesis
  proof (cases l)
    case (Inl e)
    with l assms show ?thesis by (simp add: validate_datasets_def)
  next
    case (Inr local_files)
    note lf = Inr
    show ?thesis
    proof (cases "list_r fuel (fs_ls dbutils (world s)) source_path None None")
      case None
      with l lf assms(1) show ?thesis by (simp add: validate_datasets_def)
    next
      case (Some rm)
      note rm = Some
      show ?thesis
      proof (cases rm)
        case (Inl e)
        with l lf rm assms show ?thesis by (simp add: validate_datasets_def)
      next
        case (Inr remote_files)
        obtain r1 s2 where c1: "check_extra local_files remote_files (emit Validating s)
            = (r1 :: 'e exn + unit, s2)"
          by (cases "check_extra local_files remote_files (emit Validating s)
                :: ('e exn + unit) \<times> 'w state") blast
        from check_extra_any_state [OF c1, of "emit Validating t"]
        obtain t2 where d1: "check_extra local_files remote_files (emit Validating t) = (r1, t2)"
          by blast
        show ?thesis
        proof (cases r1)
          case (Inl e)
          with l lf rm Inr c1 d1 assms show ?thesis by (auto simp add: validate_datasets_def)
        next
          case u: (Inr u)
          obtain r2 s3 where c2: "check_missing remote_files local_files s2
              = (r2 :: 'e exn + unit, s3)"
            by (cases "check_missing remote_files local_files s2
                  :: ('e exn + unit) \<times> 'w state") blast
          from check_missing_any_state [OF c2, of t2]
          obtain t3 where d2: "check_missing remote_files local_files t2 = (r2, t3)"
            by blast
          from l lf rm Inr c1 d1 c2 d2 u assms show ?thesis
            by (cases r2) (auto simp add: validate_datasets_def)
        qed
      qed
    qed
  qed
qed

lemma validate_datasets_started:
  assumes "validate_datasets fuel dbutils cfg s = Some (r, s')"
  shows "validation_started (trace s')"
proof -
  have "Print Validating \<in> set (trace (emit Validating s))" by simp
  with assms show ?thesis
    unfolding validate_datasets_def Let_def validation_started_def
    by (auto split: option.splits sum.splits prod.splits
        dest!: check_extra_trace check_missing_trace)
qed

lemma sample_installed_local:
  "fs_tree (sample_ls sample_installed) ''dbfs:/user/ada/dl/datasets''
     (sample_tree ''dbfs:/user/ada/dl/datasets'')"
  by (simp add: fs_tree_def sample_ls_def sample_installed_def sample_files_def sample_tree_def)

lemma sample_installed_remote:
  "fs_tree (sample_ls sample_installed) source_path sample_remote_tree"
  by (simp add: fs_tree_def sample_ls_def sample_installed_def sample_files_def sample_tree_def
      sample_remote_def sample_remote_tree_def source_path_def)

lemma sample_stale_local:
  "fs_tree (sample_ls sample_stale) ''dbfs:/user/ada/dl/datasets'' sample_stale_tree"
  by (simp add: fs_tree_def sample_ls_def sample_stale_def sample_stale_tree_def)

lemma sample_stale_remote:
  "fs_tree (sample_ls sample_stale) source_path sample_remote_tree"
  by (simp add: fs_tree_def sample_ls_def sample_stale_def sample_files_def sample_tree_def
      sample_remote_def sample_remote_tree_def source_path_def)

text \<open>
  C1. For every pair of file system trees, one below the local datasets directory and one
  below the remote source path, \<^verbatim>\<open>validate_datasets\<close> returns, and it raises its
  exception if and only if the two recursive listings differ as sets of relative paths:
  it raises when some relative path occurs in one listing and not in the other, and
  returns normally when both hold the same relative paths.
\<close>

theorem validate_datasets_raises_iff_listings_differ:
  fixes dbutils :: "('w, 'e) dbutils"
  assumes "fs_tree (fs_ls dbutils (world s)) (datasets_dir cfg) local_tree"
    and "fs_tree (fs_ls dbutils (world s)) source_path remote_tree"
    and "depth local_tree < fuel" and "depth remote_tree < fuel"
  shows "\<exists>r s'. validate_datasets fuel dbutils cfg s = Some (r, s') \<and> world s' = world s
           \<and> (r = Inl (Exception validation_failed))
               = (set (relative_paths (datasets_dir cfg) local_tree)
                    \<noteq> set (relative_paths source_path remote_tree))
           \<and> (r = Inr ())
               = (set (relative_paths (datasets_dir cfg) local_tree)
                    = set (relative_paths source_path remote_tree))"
proof -
  let ?L = "sort (relative_paths (datasets_dir cfg) local_tree)"
  let ?R = "sort (relative_paths source_path remote_tree)"
  let ?s1 = "emit Validating s"
  have l: "list_r fuel (fs_ls dbutils (world ?s1)) (datasets_dir cfg) None None = Some (Inr ?L)"
    using list_r_tree [OF assms(1) assms(3), of None] by simp
  have r: "list_r fuel (fs_ls dbutils (world ?s1)) source_path None None = Some (Inr ?R)"
    using list_r_tree [OF assms(2) assms(4), of None] by simp
  obtain r1 s2 where c1: "check_extra ?L ?R ?s1 = (r1 :: 'e exn + unit, s2)"
    by (cases "check_extra ?L ?R ?s1 :: ('e exn + unit) \<times> 'w state") blast
  obtain r2 s3 where c2: "check_missing ?R ?L s2 = (r2 :: 'e exn + unit, s3)"
    by (cases "check_missing ?R ?L s2 :: ('e exn + unit) \<times> 'w state") blast
  note e1 = check_extra_result [OF c1] and e2 = check_missing_result [OF c2]
  show ?thesis
  proof (cases "set ?L \<subseteq> set ?R")
    case False
    with e1 have "r1 = Inl (Exception validation_failed)" by simp
    with l r c1 have "validate_datasets fuel dbutils cfg s = Some (Inl (Exception validation_failed), s2)"
      by (simp add: validate_datasets_def)
    with False e1 show ?thesis by auto
  next
    case True
    with e1 have r1: "r1 = Inr ()" by simp
    show ?thesis
    proof (cases "set ?R \<subseteq> set ?L")
      case False
      with e2 have "r2 = Inl (Exception validation_failed)" by simp
      with l r c1 c2 r1
      have "validate_datasets fuel dbutils cfg s = Some (Inl (Exception validation_failed), s3)"
        by (simp add: validate_datasets_def)
      with False e1 e2 show ?thesis by auto
    next
      case sub: True
      with e2 have "r2 = Inr ()" by simp
      with l r c1 c2 r1
      have "validate_datasets fuel dbutils cfg s = Some (Inr (), emit ElapsedSeconds s3)"
        by (simp add: validate_datasets_def)
      with True sub e1 e2 show ?thesis by auto
    qed
  qed
qed

theorem validate_datasets_raises_iff_listings_differ_witness:
  "(\<exists>s'. validate_datasets 2 (sample_dbutils None) sample_config
            \<lparr>world = sample_installed, trace = []\<rparr> = Some (Inr (), s'))
   \<and> (\<exists>s'. validate_datasets 2 (sample_dbutils None) sample_config
            \<lparr>world = sample_stale, trace = []\<rparr> = Some (Inl (Exception validation_failed), s'))"
proof -
  have d: "datasets_dir sample_config = ''dbfs:/user/ada/dl/datasets''"
    by (simp add: datasets_dir_def sample_config_def)
  have ls: "fs_ls (sample_dbutils None) = sample_ls"
    by (simp add: sample_dbutils_def)
  have d1: "depth (sample_tree ''dbfs:/user/ada/dl/datasets'') < 2"
    and d2: "depth sample_remote_tree < 2" and d3: "depth sample_stale_tree < 2"
    by (simp_all add: sample_tree_def sample_remote_tree_def sample_stale_tree_def)
  have same: "set (relative_paths ''dbfs:/user/ada/dl/datasets'' (sample_tree ''dbfs:/user/ada/dl/datasets''))
      = set (relative_paths source_path sample_remote_tree)"
    by (simp add: relative_paths_def sample_tree_def sample_remote_tree_def)
  have "''/old.csv'' \<in> set (relative_paths ''dbfs:/user/ada/dl/datasets'' sample_stale_tree)"
    and "''/old.csv'' \<notin> set (relative_paths source_path sample_remote_tree)"
    by (simp_all add: relative_paths_def sample_tree_def sample_remote_tree_def sample_stale_tree_def)
  then have diff: "set (relative_paths ''dbfs:/user/ada/dl/datasets'' sample_stale_tree)
      \<noteq> set (relative_paths source_path sample_remote_tree)"
    by blast
  have "\<exists>s'. validate_datasets 2 (sample_dbutils None) sample_config
            \<lparr>world = sample_installed, trace = []\<rparr> = Some (Inr (), s')"
    using validate_datasets_raises_iff_listings_differ
      [of "sample_dbutils None" "\<lparr>world = sample_installed, trace = []\<rparr>" sample_config
          "sample_tree ''dbfs:/user/ada/dl/datasets''" sample_remote_tree 2]
      sample_installed_local sample_installed_remote d1 d2 same
    by (auto simp add: d ls)
  moreover
  have "\<exists>s'. validate_datasets 2 (sample_dbutils None) sample_config
            \<lparr>world = sample_stale, trace = []\<rparr> = Some (Inl (Exception validation_failed), s')"
    using validate_datasets_raises_iff_listings_differ
      [of "sample_dbutils None" "\<lparr>world = sample_stale, trace = []\<rparr>" sample_config
          sample_stale_tree sample_remote_tree 2]
      sample_stale_local sample_stale_remote d3 d2 diff
    by (auto simp add: d ls)
  ultimately show ?thesis by blast
qed

section \<open>install_datasets\<close>

lemma sample_datasets_dir: "datasets_dir sample_config = ''dbfs:/user/ada/dl/datasets''"
  by (simp add: datasets_dir_def sample_config_def)

lemma sample_installed_exists:
  "path_exists (sample_ls sample_installed) ''dbfs:/user/ada/dl/datasets''"
  by (simp add: path_exists_def sample_ls_def sample_installed_def sample_files_def)

lemma sample_remote_not_installed:
  "\<not> path_exists (sample_ls sample_remote) ''dbfs:/user/ada/dl/datasets''"
  by (simp add: path_exists_def sample_ls_def sample_remote_def sample_files_def source_path_def)

lemma sample_rm_installed:
  "sample_rm sample_installed ''dbfs:/user/ada/dl/datasets'' True = (Inr True, sample_remote)"
  by (simp add: sample_rm_def sample_installed_def sample_files_def sample_remote_def sample_under_def
      source_path_def)

lemma sample_cp_remote:
  "sample_cp sample_remote source_path ''dbfs:/user/ada/dl/datasets'' True
     = (Inr True, sample_installed)"
  by (simp add: sample_cp_def sample_installed_def sample_files_def sample_remote_def sample_under_def
      sample_rebase_def)

text \<open>
  C2. \<^verbatim>\<open>install_datasets\<close> is a conditional copy. If \<^verbatim>\<open>reinstall\<close> is false and the
  target directory exists, it returns normally after the skip message, without a call of
  \<^verbatim>\<open>rm\<close> or \<^verbatim>\<open>cp\<close> and with the world unchanged. Otherwise it calls
  \<^verbatim>\<open>rm(target_dir, True)\<close> when the target exists, and then
  \<^verbatim>\<open>cp(source_path, target_dir, True)\<close> in the world \<^verbatim>\<open>rm\<close> left; the outcome is that
  of the copy. (An exception of \<^verbatim>\<open>rm\<close> ends the function before the copy, as in any
  sequence of Python statements.)
\<close>

theorem install_datasets_conditional_copy:
  fixes dbutils :: "('w, 'e) dbutils"
  assumes "install_datasets dbutils cfg reinstall s = (r, s')"
  shows "if \<not> reinstall \<and> path_exists (fs_ls dbutils (world s)) (datasets_dir cfg)
         then r = Inr () \<and> world s' = world s
              \<and> trace s' = trace s @ [Print (SourceIs source_path),
                                       Print (DatasetDirIs (datasets_dir cfg)),
                                       Print SkippingInstall]
              \<and> fs_calls (trace s') = fs_calls (trace s)
         else (case (if path_exists (fs_ls dbutils (world s)) (datasets_dir cfg)
                     then fs_rm dbutils (world s) (datasets_dir cfg) True
                     else (Inr True, world s)) of
                 (Inl e, w1) \<Rightarrow>
                    r = Inl (Raised e) \<and> world s' = w1
                    \<and> fs_calls (trace s') = fs_calls (trace s) @ [FsRm (datasets_dir cfg) True]
               | (Inr b, w1) \<Rightarrow>
                    r = (case fst (fs_cp dbutils w1 source_path (datasets_dir cfg) True) of
                           Inl e \<Rightarrow> Inl (Raised e) | Inr c \<Rightarrow> Inr ())
                    \<and> world s' = snd (fs_cp dbutils w1 source_path (datasets_dir cfg) True)
                    \<and> fs_calls (trace s') =
                        fs_calls (trace s)
                        @ (if path_exists (fs_ls dbutils (world s)) (datasets_dir cfg)
                           then [FsRm (datasets_dir cfg) True] else [])
                        @ [FsCp source_path (datasets_dir cfg) True])"
  using assms
  by (auto simp add: install_datasets_def Let_def rm_def cp_def raised_def
      split: prod.splits sum.splits if_splits)

theorem install_datasets_conditional_copy_witness:
  "(let (r, s') = install_datasets (sample_dbutils None) sample_config False
                    \<lparr>world = sample_installed, trace = []\<rparr>
    in r = Inr () \<and> world s' = sample_installed \<and> fs_calls (trace s') = [])
   \<and> (let (r, s') = install_datasets (sample_dbutils None) sample_config True
                    \<lparr>world = sample_installed, trace = []\<rparr>
    in r = Inr () \<and> world s' = sample_installed
       \<and> fs_calls (trace s') = [FsRm ''dbfs:/user/ada/dl/datasets'' True,
                                 FsCp source_path ''dbfs:/user/ada/dl/datasets'' True])
   \<and> (let (r, s') = install_datasets (sample_dbutils None) sample_config False
                    \<lparr>world = sample_remote, trace = []\<rparr>
    in r = Inr () \<and> world s' = sample_installed
       \<and> fs_calls (trace s') = [FsCp source_path ''dbfs:/user/ada/dl/datasets'' True])"
proof -
  have ops: "fs_ls (sample_dbutils None) = sample_ls" "fs_rm (sample_dbutils None) = sample_rm"
    "fs_cp (sample_dbutils None) = sample_cp"
    by (simp_all add: sample_dbutils_def)
  note facts = ops sample_datasets_dir sample_installed_exists sample_remote_not_installed
    sample_rm_installed sample_cp_remote
  show ?thesis
    using
      install_datasets_conditional_copy [where dbutils = "sample_dbutils None"
          and cfg = sample_config and reinstall = False
          and s = "\<lparr>world = sample_installed, trace = []\<rparr>", OF surjective_pairing]
      install_datasets_conditional_copy [where dbutils = "sample_dbutils None"
          and cfg = sample_config and reinstall = True
          and s = "\<lparr>world = sample_installed, trace = []\<rparr>", OF surjective_pairing]
      install_datasets_conditional_copy [where dbutils = "sample_dbutils None"
          and cfg = sample_config and reinstall = False
          and s = "\<lparr>world = sample_remote, trace = []\<rparr>", OF surjective_pairing]
    by (simp add: facts split_beta)
qed

section \<open>The installation cell\<close>

lemma install_datasets_no_validation:
  "install_datasets dbutils cfg reinstall s = (r, s') \<Longrightarrow>
     validation_started (trace s') = validation_started (trace s)"
  by (auto simp add: install_datasets_def Let_def rm_def cp_def validation_started_def
      split: prod.splits sum.splits if_splits)

lemma first_attempt_no_validation:
  "first_attempt dbutils cfg s = (r, s') \<Longrightarrow>
     validation_started (trace s') = validation_started (trace s)"
  by (auto simp add: first_attempt_def Let_def dest: install_datasets_no_validation
      split: sum.splits)

lemma try_install_no_validation:
  assumes "try_install dbutils cfg s = (r, s')"
  shows "validation_started (trace s') = validation_started (trace s)"
proof (cases "first_attempt dbutils cfg s")
  case (Pair r1 s1)
  note fa = first_attempt_no_validation [OF Pair]
  show ?thesis
  proof (cases r1)
    case (Inr u)
    with Pair assms fa show ?thesis by (simp add: try_install_def)
  next
    case (Inl e)
    with Pair assms have "install_datasets dbutils cfg False s1 = (r, s')"
      by (simp add: try_install_def)
    from install_datasets_no_validation [OF this] fa show ?thesis by simp
  qed
qed

text \<open>
  C3, as the code has it. If reading the widget \<^verbatim>\<open>reinstall\<close> raises, or the first call
  of \<^verbatim>\<open>install_datasets\<close> raises, then \<^verbatim>\<open>install_datasets(reinstall=False)\<close> is run as
  the fallback, from the state the failed attempt left. If the \<^verbatim>\<open>try\<close> statement ends
  normally, by its body or by the fallback, \<^verbatim>\<open>validate_datasets\<close> runs next. If the
  fallback raises, its exception ends the cell and \<^verbatim>\<open>validate_datasets\<close> is not run.
\<close>

theorem fallback_install_then_validate:
  fixes dbutils :: "('w, 'e) dbutils"
  shows
  "(\<forall>e. widgets_get dbutils (world s) ''reinstall'' = Inl e
        \<longrightarrow> try_install dbutils cfg s = install_datasets dbutils cfg False s)
   \<and> (\<forall>v e s1. widgets_get dbutils (world s) ''reinstall'' = Inr v
          \<and> install_datasets dbutils cfg (lower v = ''true'') s = (Inl e, s1)
        \<longrightarrow> try_install dbutils cfg s = install_datasets dbutils cfg False s1)
   \<and> (\<forall>u s1. try_install dbutils cfg s = (Inr u, s1)
        \<longrightarrow> install_and_validate fuel dbutils cfg s = validate_datasets fuel dbutils cfg s1
            \<and> (\<forall>r s2. validate_datasets fuel dbutils cfg s1 = Some (r, s2)
                  \<longrightarrow> validation_started (trace s2)))
   \<and> (\<forall>e s1. try_install dbutils cfg s = (Inl e, s1)
        \<longrightarrow> install_and_validate fuel dbutils cfg s = Some (Inl e, s1)
            \<and> validation_started (trace s1) = validation_started (trace s))"
proof (intro conjI allI impI)
  fix e assume "widgets_get dbutils (world s) ''reinstall'' = Inl e"
  then show "try_install dbutils cfg s = install_datasets dbutils cfg False s"
    by (simp add: try_install_def first_attempt_def)
next
  fix v e s1
  assume "widgets_get dbutils (world s) ''reinstall'' = Inr v
          \<and> install_datasets dbutils cfg (lower v = ''true'') s = (Inl e, s1)"
  then show "try_install dbutils cfg s = install_datasets dbutils cfg False s1"
    by (simp add: try_install_def first_attempt_def)
next
  fix u s1 assume "try_install dbutils cfg s = (Inr u, s1)"
  then show "install_and_validate fuel dbutils cfg s = validate_datasets fuel dbutils cfg s1"
    by (simp add: install_and_validate_def)
next
  fix u s1 r s2
  assume "validate_datasets fuel dbutils cfg s1 = Some (r, s2)"
  then show "validation_started (trace s2)" by (rule validate_datasets_started)
next
  fix e s1 assume "try_install dbutils cfg s = (Inl e, s1)"
  then show "install_and_validate fuel dbutils cfg s = Some (Inl e, s1)"
    by (simp add: install_and_validate_def)
next
  fix e s1 assume "try_install dbutils cfg s = (Inl e, s1)"
  then show "validation_started (trace s1) = validation_started (trace s)"
    by (rule try_install_no_validation)
qed

theorem fallback_install_then_validate_witness:
  "try_install (sample_dbutils None) sample_config \<lparr>world = sample_remote, trace = []\<rparr>
     = install_datasets (sample_dbutils None) sample_config False
         \<lparr>world = sample_remote, trace = []\<rparr>
   \<and> (\<exists>s1 s2. try_install (sample_dbutils None) sample_config
                  \<lparr>world = sample_remote, trace = []\<rparr> = (Inr (), s1)
          \<and> install_and_validate 2 (sample_dbutils None) sample_config
                  \<lparr>world = sample_remote, trace = []\<rparr> = Some (Inr (), s2)
          \<and> validate_datasets 2 (sample_dbutils None) sample_config s1 = Some (Inr (), s2)
          \<and> validation_started (trace s2))
   \<and> (\<exists>s1 s2. install_datasets (sample_dbutils (Some ''TRUE'')) sample_config True
                  \<lparr>world = [], trace = []\<rparr> = (Inl (Raised ''FileNotFoundException''), s1)
          \<and> try_install (sample_dbutils (Some ''TRUE'')) sample_config \<lparr>world = [], trace = []\<rparr>
               = install_datasets (sample_dbutils (Some ''TRUE'')) sample_config False s1
          \<and> try_install (sample_dbutils (Some ''TRUE'')) sample_config \<lparr>world = [], trace = []\<rparr>
               = (Inl (Raised ''FileNotFoundException''), s2)
          \<and> install_and_validate 2 (sample_dbutils (Some ''TRUE'')) sample_config
               \<lparr>world = [], trace = []\<rparr> = Some (Inl (Raised ''FileNotFoundException''), s2)
          \<and> \<not> validation_started (trace s2))"
proof -
  let ?A = "sample_dbutils None" and ?B = "sample_dbutils (Some ''TRUE'')"
  let ?sa = "\<lparr>world = sample_remote, trace = []\<rparr>" and ?sb = "\<lparr>world = ([] :: sample_fs), trace = []\<rparr>"
  note thA = fallback_install_then_validate [of ?A ?sa sample_config 2]
  note thB = fallback_install_then_validate [of ?B ?sb sample_config 2]
  have wa: "widgets_get ?A (world ?sa) ''reinstall'' = Inl ''InputWidgetNotDefined''"
    by (simp add: sample_dbutils_def)
  have ta: "fst (try_install ?A sample_config ?sa) = Inr ()"
    by code_simp
  have va: "fst (the (validate_datasets 2 ?A sample_config (snd (try_install ?A sample_config ?sa))))
              = Inr ()"
    and vs: "validate_datasets 2 ?A sample_config (snd (try_install ?A sample_config ?sa)) \<noteq> None"
    by code_simp+
  have wb: "widgets_get ?B (world ?sb) ''reinstall'' = Inr ''TRUE''"
    by (simp add: sample_dbutils_def)
  have lb: "(lower ''TRUE'' = ''true'') = True"
    by code_simp
  have ib: "fst (install_datasets ?B sample_config True ?sb) = Inl (Raised ''FileNotFoundException'')"
    by code_simp
  have tb: "fst (try_install ?B sample_config ?sb) = Inl (Raised ''FileNotFoundException'')"
    by code_simp
  have nb: "\<not> validation_started (trace ?sb)"
    by (simp add: validation_started_def)
  from thA wa have 1: "try_install ?A sample_config ?sa = install_datasets ?A sample_config False ?sa"
    by blast
  obtain s1 where s1: "try_install ?A sample_config ?sa = (Inr (), s1)"
    using ta by (cases "try_install ?A sample_config ?sa") simp
  obtain s2 where s2: "validate_datasets 2 ?A sample_config s1 = Some (Inr (), s2)"
    using va vs s1 by (cases "validate_datasets 2 ?A sample_config s1") auto
  from thA s1 s2 have 2: "install_and_validate 2 ?A sample_config ?sa = Some (Inr (), s2)"
    and 3: "validation_started (trace s2)"
    by auto
  obtain t1 where t1: "install_datasets ?B sample_config True ?sb
      = (Inl (Raised ''FileNotFoundException''), t1)"
    using ib by (cases "install_datasets ?B sample_config True ?sb") simp
  from thB wb t1 lb
  have 4: "try_install ?B sample_config ?sb = install_datasets ?B sample_config False t1"
    by simp
  obtain t2 where t2: "try_install ?B sample_config ?sb = (Inl (Raised ''FileNotFoundException''), t2)"
    using tb by (cases "try_install ?B sample_config ?sb") simp
  from thB t2 nb
  have 5: "install_and_validate 2 ?B sample_config ?sb = Some (Inl (Raised ''FileNotFoundException''), t2)"
    and 6: "\<not> validation_started (trace t2)"
    by auto
  from 1 s1 s2 2 3 t1 4 t2 5 6 show ?thesis by blast
qed

text \<open>
  C3 as stated, that \<^verbatim>\<open>validate_datasets\<close> runs afterwards in every case, fails where
  the fallback raises too: with no widget defined, no local copy and an unreachable
  source, the copy of the fallback raises, the cell ends with that exception, and the
  trace shows no validation.
\<close>

theorem validate_skipped_when_fallback_raises:
  "(case install_and_validate 2 (sample_dbutils None) sample_config \<lparr>world = [], trace = []\<rparr> of
      None \<Rightarrow> False
    | Some (r, s') \<Rightarrow> r = Inl (Raised ''FileNotFoundException'')
        \<and> \<not> validation_started (trace s')
        \<and> fs_calls (trace s') = [FsCp source_path ''dbfs:/user/ada/dl/datasets'' True])"
  by code_simp

section \<open>Running the setup twice\<close>

lemma install_datasets_target_exists:
  fixes dbutils :: "('w, 'e) dbutils"
  assumes "cp_creates_target dbutils"
    and "install_datasets dbutils cfg reinstall s = (Inr (), s1)"
  shows "path_exists (fs_ls dbutils (world s1)) (datasets_dir cfg)"
proof (cases "\<not> reinstall \<and> path_exists (fs_ls dbutils (world s)) (datasets_dir cfg)")
  case True
  with assms(2) show ?thesis
    by (auto simp add: install_datasets_def Let_def)
next
  case False
  with assms(2)
  obtain w b where "fs_cp dbutils w source_path (datasets_dir cfg) True = (Inr b, world s1)"
    by (auto simp add: install_datasets_def Let_def rm_def cp_def raised_def
        split: prod.splits sum.splits if_splits)
  with assms(1) show ?thesis
    unfolding cp_creates_target_def by blast
qed

lemma install_datasets_skip:
  assumes "path_exists (fs_ls dbutils (world s)) (datasets_dir cfg)"
  shows "install_datasets dbutils cfg False s = (Inr (), s\<lparr>trace := trace s @ skip_trace cfg\<rparr>)"
  using assms by (simp add: install_datasets_def Let_def emit_def skip_trace_def)

lemma try_install_target_exists:
  fixes dbutils :: "('w, 'e) dbutils"
  assumes "cp_creates_target dbutils" and "try_install dbutils cfg s = (Inr (), s1)"
  shows "path_exists (fs_ls dbutils (world s1)) (datasets_dir cfg)"
proof (cases "first_attempt dbutils cfg s")
  case (Pair r0 s0)
  show ?thesis
  proof (cases r0)
    case (Inl e)
    with Pair assms(2) have "install_datasets dbutils cfg False s0 = (Inr (), s1)"
      by (simp add: try_install_def)
    from install_datasets_target_exists [OF assms(1) this] show ?thesis .
  next
    case (Inr u)
    with Pair assms(2) have fa: "first_attempt dbutils cfg s = (Inr (), s1)"
      by (simp add: try_install_def)
    then obtain v where "install_datasets dbutils cfg (lower v = ''true'') s = (Inr (), s1)"
      by (auto simp add: first_attempt_def Let_def split: sum.splits)
    from install_datasets_target_exists [OF assms(1) this] show ?thesis .
  qed
qed

lemma try_install_skip:
  assumes "\<not> reinstall_requested dbutils (world s)"
    and "path_exists (fs_ls dbutils (world s)) (datasets_dir cfg)"
  shows "try_install dbutils cfg s = (Inr (), s\<lparr>trace := trace s @ skip_trace cfg\<rparr>)"
  using assms install_datasets_skip [OF assms(2)]
  by (auto simp add: try_install_def first_attempt_def reinstall_requested_def Let_def
      split: sum.splits)

lemma mkdirs_existing:
  assumes "mkdirs_idempotent dbutils" and "path_exists (fs_ls dbutils (world s)) dir"
  shows "\<exists>b. mkdirs dbutils dir s = (Inr b, s\<lparr>trace := trace s @ [FsMkdirs dir]\<rparr>)"
proof -
  from assms obtain b where "fs_mkdirs dbutils (world s) dir = (Inr b, world s)"
    unfolding mkdirs_idempotent_def by blast
  then show ?thesis by (simp add: mkdirs_def raised_def)
qed

lemma make_directories_existing:
  assumes mk: "mkdirs_idempotent dbutils"
    and "path_exists (fs_ls dbutils (world s)) (userhome cfg)"
    and "path_exists (fs_ls dbutils (world s)) (course_dir cfg)"
    and "path_exists (fs_ls dbutils (world s)) (working_dir cfg)"
  shows "make_directories dbutils cfg s
           = (Inr (), s\<lparr>trace := trace s @ [FsMkdirs (userhome cfg), FsMkdirs (course_dir cfg),
                                             FsMkdirs (working_dir cfg)]\<rparr>)"
proof -
  let ?s1 = "s\<lparr>trace := trace s @ [FsMkdirs (userhome cfg)]\<rparr>"
  let ?s2 = "?s1\<lparr>trace := trace ?s1 @ [FsMkdirs (course_dir cfg)]\<rparr>"
  from mkdirs_existing [OF mk assms(2)]
  obtain b1 where 1: "mkdirs dbutils (userhome cfg) s = (Inr b1, ?s1)" by blast
  from assms(3) have "path_exists (fs_ls dbutils (world ?s1)) (course_dir cfg)" by simp
  from mkdirs_existing [OF mk this]
  obtain b2 where 2: "mkdirs dbutils (course_dir cfg) ?s1 = (Inr b2, ?s2)" by blast
  from assms(4) have "path_exists (fs_ls dbutils (world ?s2)) (working_dir cfg)" by simp
  from mkdirs_existing [OF mk this]
  obtain b3 where 3: "mkdirs dbutils (working_dir cfg) ?s2
      = (Inr b3, ?s2\<lparr>trace := trace ?s2 @ [FsMkdirs (working_dir cfg)]\<rparr>)" by blast
  from 1 2 3 show ?thesis by (simp add: make_directories_def)
qed

lemma sample_path_exists: "path_exists (sample_ls w) p = (map_of w p \<noteq> None)"
  by (simp add: path_exists_def sample_ls_def split: option.splits)

lemma sample_mkdirs_idempotent: "mkdirs_idempotent (sample_dbutils widget)"
  by (auto simp add: mkdirs_idempotent_def sample_dbutils_def sample_path_exists sample_mkdirs_def)

lemma sample_cp_creates_target: "cp_creates_target (sample_dbutils widget)"
  by (auto simp add: cp_creates_target_def sample_dbutils_def sample_path_exists sample_cp_def
      split: option.splits)

text \<open>
  C4. On a platform whose \<^verbatim>\<open>mkdirs\<close> is idempotent and whose recursive copy creates its
  target: \<^verbatim>\<open>mkdirs\<close> on an existing directory leaves the file system unchanged; a call
  of \<^verbatim>\<open>install_datasets(reinstall=False)\<close> after a successful install takes the skip
  branch, with no \<^verbatim>\<open>rm\<close> and no \<^verbatim>\<open>cp\<close>; and so a second run of the setup, after a
  first run that installed successfully and with the widget not asking for a
  reinstallation, ends as the first did, leaves the world as the first run left it, and
  makes no file system call but the three \<^verbatim>\<open>mkdirs\<close>.
\<close>

theorem setup_twice_same_file_system:
  fixes dbutils :: "('w, 'e) dbutils"
  assumes mk: "mkdirs_idempotent dbutils" and cpt: "cp_creates_target dbutils"
  shows
  "(path_exists (fs_ls dbutils (world s)) dir
      \<longrightarrow> (\<exists>b. mkdirs dbutils dir s = (Inr b, s\<lparr>trace := trace s @ [FsMkdirs dir]\<rparr>)))
   \<and> (install_datasets dbutils cfg reinstall s = (Inr (), s')
      \<longrightarrow> install_datasets dbutils cfg False s'
            = (Inr (), s'\<lparr>trace := trace s' @ skip_trace cfg\<rparr>))
   \<and> (make_directories dbutils cfg s_init = (Inr (), s_dirs)
       \<and> try_install dbutils cfg s_dirs = (Inr (), s_inst)
       \<and> validate_datasets fuel dbutils cfg s_inst = Some (res, s_end)
       \<and> path_exists (fs_ls dbutils (world s_end)) (userhome cfg)
       \<and> path_exists (fs_ls dbutils (world s_end)) (course_dir cfg)
       \<and> path_exists (fs_ls dbutils (world s_end)) (working_dir cfg)
       \<and> \<not> reinstall_requested dbutils (world s_end)
      \<longrightarrow> classroom_setup fuel dbutils cfg s_init = Some (res, s_end)
          \<and> (\<exists>s2. classroom_setup fuel dbutils cfg s_end = Some (res, s2)
                \<and> world s2 = world s_end
                \<and> fs_calls (trace s2)
                    = fs_calls (trace s_end) @ [FsMkdirs (userhome cfg), FsMkdirs (course_dir cfg),
                                             FsMkdirs (working_dir cfg)]))"
proof (intro conjI impI)
  assume "path_exists (fs_ls dbutils (world s)) dir"
  from mkdirs_existing [OF mk this]
  show "\<exists>b. mkdirs dbutils dir s = (Inr b, s\<lparr>trace := trace s @ [FsMkdirs dir]\<rparr>)" .
next
  assume "install_datasets dbutils cfg reinstall s = (Inr (), s')"
  from install_datasets_skip [OF install_datasets_target_exists [OF cpt this]]
  show "install_datasets dbutils cfg False s' = (Inr (), s'\<lparr>trace := trace s' @ skip_trace cfg\<rparr>)" .
next
  assume a: "make_directories dbutils cfg s_init = (Inr (), s_dirs)
       \<and> try_install dbutils cfg s_dirs = (Inr (), s_inst)
       \<and> validate_datasets fuel dbutils cfg s_inst = Some (res, s_end)
       \<and> path_exists (fs_ls dbutils (world s_end)) (userhome cfg)
       \<and> path_exists (fs_ls dbutils (world s_end)) (course_dir cfg)
       \<and> path_exists (fs_ls dbutils (world s_end)) (working_dir cfg)
       \<and> \<not> reinstall_requested dbutils (world s_end)"
  then show "classroom_setup fuel dbutils cfg s_init = Some (res, s_end)"
    by (simp add: classroom_setup_def install_and_validate_def)
  from a have v: "validate_datasets fuel dbutils cfg s_inst = Some (res, s_end)"
    and ti: "try_install dbutils cfg s_dirs = (Inr (), s_inst)" by simp_all
  from validate_datasets_world [OF v] have w1: "world s_end = world s_inst" by simp
  let ?m = "s_end\<lparr>trace := trace s_end @ [FsMkdirs (userhome cfg), FsMkdirs (course_dir cfg),
                                      FsMkdirs (working_dir cfg)]\<rparr>"
  let ?i = "?m\<lparr>trace := trace ?m @ skip_trace cfg\<rparr>"
  from a make_directories_existing [OF mk, of s_end cfg]
  have md: "make_directories dbutils cfg s_end = (Inr (), ?m)" by simp
  from try_install_target_exists [OF cpt ti] w1
  have "path_exists (fs_ls dbutils (world ?m)) (datasets_dir cfg)" by simp
  moreover from a have "\<not> reinstall_requested dbutils (world ?m)" by simp
  ultimately have t2: "try_install dbutils cfg ?m = (Inr (), ?i)"
    by (rule try_install_skip [rotated])
  have "world ?i = world s_inst" using w1 by simp
  from validate_datasets_same_world [OF v this]
  obtain s2 where v2: "validate_datasets fuel dbutils cfg ?i = Some (res, s2)" by blast
  from md t2 v2 have "classroom_setup fuel dbutils cfg s_end = Some (res, s2)"
    by (simp add: classroom_setup_def install_and_validate_def)
  moreover from validate_datasets_world [OF v2]
  have "world s2 = world s_end" and "fs_calls (trace s2)
      = fs_calls (trace s_end) @ [FsMkdirs (userhome cfg), FsMkdirs (course_dir cfg),
                               FsMkdirs (working_dir cfg)]"
    by (simp_all add: skip_trace_def)
  ultimately show "\<exists>s2. classroom_setup fuel dbutils cfg s_end = Some (res, s2)
                \<and> world s2 = world s_end
                \<and> fs_calls (trace s2)
                    = fs_calls (trace s_end) @ [FsMkdirs (userhome cfg), FsMkdirs (course_dir cfg),
                                             FsMkdirs (working_dir cfg)]"
    by blast
qed

theorem setup_twice_same_file_system_witness:
  "mkdirs_idempotent (sample_dbutils None) \<and> cp_creates_target (sample_dbutils None)
   \<and> (\<exists>s1 s2. classroom_setup 2 (sample_dbutils None) sample_config
                  \<lparr>world = sample_remote, trace = []\<rparr> = Some (Inr (), s1)
          \<and> classroom_setup 2 (sample_dbutils None) sample_config s1 = Some (Inr (), s2)
          \<and> world s2 = world s1
          \<and> fs_calls (trace s2)
               = fs_calls (trace s1) @ [FsMkdirs ''dbfs:/user/ada'', FsMkdirs ''dbfs:/user/ada/dl'',
                                        FsMkdirs ''dbfs:/user/ada/dl/work''])"
proof -
  let ?A = "sample_dbutils None"
  let ?s0 = "\<lparr>world = sample_remote, trace = []\<rparr>"
  let ?sa = "snd (make_directories ?A sample_config ?s0)"
  let ?sb = "snd (try_install ?A sample_config ?sa)"
  let ?s1 = "snd (the (validate_datasets 2 ?A sample_config ?sb))"
  have "fst (make_directories ?A sample_config ?s0) = Inr ()" by code_simp
  then have md: "make_directories ?A sample_config ?s0 = (Inr (), ?sa)"
    by (simp add: prod_eq_iff)
  have "fst (try_install ?A sample_config ?sa) = Inr ()" by code_simp
  then have ti: "try_install ?A sample_config ?sa = (Inr (), ?sb)"
    by (simp add: prod_eq_iff)
  have "validate_datasets 2 ?A sample_config ?sb \<noteq> None"
    and "fst (the (validate_datasets 2 ?A sample_config ?sb)) = Inr ()"
    by code_simp+
  then have v: "validate_datasets 2 ?A sample_config ?sb = Some (Inr (), ?s1)"
    by (auto simp add: prod_eq_iff)
  have ex: "path_exists (fs_ls ?A (world ?s1)) (userhome sample_config)"
    "path_exists (fs_ls ?A (world ?s1)) (course_dir sample_config)"
    "path_exists (fs_ls ?A (world ?s1)) (working_dir sample_config)"
    by code_simp+
  have nr: "\<not> reinstall_requested ?A (world ?s1)"
    by (simp add: reinstall_requested_def sample_dbutils_def)
  have dirs: "userhome sample_config = ''dbfs:/user/ada''"
    "course_dir sample_config = ''dbfs:/user/ada/dl''"
    "working_dir sample_config = ''dbfs:/user/ada/dl/work''"
    by (simp_all add: sample_config_def)
  from setup_twice_same_file_system [where dbutils = ?A and cfg = sample_config and fuel = 2
        and s_init = ?s0 and s_dirs = ?sa and s_inst = ?sb and res = "Inr ()" and s_end = ?s1,
      OF sample_mkdirs_idempotent sample_cp_creates_target]
    md ti v ex nr
  have "classroom_setup 2 ?A sample_config ?s0 = Some (Inr (), ?s1)
      \<and> (\<exists>s2. classroom_setup 2 ?A sample_config ?s1 = Some (Inr (), s2)
            \<and> world s2 = world ?s1
            \<and> fs_calls (trace s2)
                 = fs_calls (trace ?s1) @ [FsMkdirs ''dbfs:/user/ada'', FsMkdirs ''dbfs:/user/ada/dl'',
                                          FsMkdirs ''dbfs:/user/ada/dl/work''])"
    unfolding dirs by blast
  with sample_mkdirs_idempotent sample_cp_creates_target show ?thesis by blast
qed

section \<open>track_experiments\<close>

lemma initial_segment_Nil [simp]: "initial_segment [] ys"
  by (simp add: initial_segment_def)

lemma initial_segment_Cons [simp]:
  "initial_segment (x # xs) (y # ys) = (x = y \<and> initial_segment xs ys)"
  by (auto simp add: initial_segment_def)

lemma initial_segment_refl [simp]: "initial_segment xs xs"
  by (simp add: initial_segment_def)

lemma initial_segment_appendI [simp]: "initial_segment xs (xs @ zs)"
  by (simp add: initial_segment_def)

lemma initial_segment_same [simp]:
  "initial_segment (xs @ ys) (xs @ zs) = initial_segment ys zs"
  by (simp add: initial_segment_def)

lemma initial_segment_append: "initial_segment xs ys \<Longrightarrow> initial_segment xs (ys @ zs)"
  by (auto simp add: initial_segment_def take_Suc_conv_app_nth min_def
      dest: arg_cong [where f = length] split: if_splits)

lemma initial_segment_set: "initial_segment xs ys \<Longrightarrow> set xs \<subseteq> set ys"
  unfolding initial_segment_def by (metis set_take_subset)

lemma dict_unpack_distinct:
  "distinct (map fst d) \<Longrightarrow> distinct (map fst (dict_unpack d items))"
  unfolding dict_unpack_def
  by (induction items arbitrary: d) (simp_all add: distinct_update)

lemma dict_unpack_map_of:
  "map_of (dict_unpack d items) = map_of d ++ map_of (rev items)"
  unfolding dict_unpack_def
proof (induction items arbitrary: d)
  case Nil
  then show ?case by simp
next
  case (Cons kv items)
  have upd: "map_of (AList.update (fst kv) (snd kv) d) = map_of d ++ map_of [kv]"
    by (cases kv) (simp add: update_conv')
  have "map_of (foldl (\<lambda>d kv. AList.update (fst kv) (snd kv) d) d (kv # items))
      = map_of (AList.update (fst kv) (snd kv) d) ++ map_of (rev items)"
    by (simp add: Cons.IH)
  also have "\<dots> = map_of d ++ (map_of [kv] ++ map_of (rev items))"
    by (simp only: upd map_add_assoc)
  also have "map_of [kv] ++ map_of (rev items) = map_of (rev (kv # items))"
    by (simp only: rev.simps map_of_append)
  finally show ?case .
qed

lemma map_of_rev_distinct:
  assumes "distinct (map fst xs)"
  shows "map_of (rev xs) = map_of xs"
proof (rule ext)
  fix k
  from assms have d: "distinct (map fst (rev xs))"
    by (simp add: rev_map [symmetric])
  show "map_of (rev xs) k = map_of xs k"
  proof (cases "map_of xs k")
    case None
    then have "k \<notin> fst ` set (rev xs)" by (simp add: map_of_eq_None_iff)
    then have "map_of (rev xs) k = None" by (simp add: map_of_eq_None_iff)
    with None show ?thesis by simp
  next
    case (Some v)
    with assms have "(k, v) \<in> set (rev xs)" by simp
    with d have "map_of (rev xs) k = Some v" by (simp only: map_of_eq_Some_iff)
    with Some show ?thesis by simp
  qed
qed

lemma merge_kwargs_distinct: "distinct (map fst (merge_kwargs a b c))"
  by (simp add: merge_kwargs_def dict_unpack_distinct)

lemma merge_kwargs_map_of:
  assumes "distinct (map fst a)" "distinct (map fst b)" "distinct (map fst c)"
  shows "map_of (merge_kwargs a b c) = map_of a ++ map_of b ++ map_of c"
  using assms by (simp add: merge_kwargs_def dict_unpack_map_of map_of_rev_distinct)

lemma logged_params_append [simp]:
  "logged_params (xs @ ys) = logged_params xs @ logged_params ys"
  by (induction xs rule: logged_params.induct) simp_all

text \<open>
  A tracking call adds its parameter, if it is one, when it returns, and nothing when it
  raises.
\<close>

lemma tracked_logged:
  assumes "tracked outcome call st = (r, st')"
  shows "logged_params (calls st')
           = logged_params (calls st) @ (if r = Inr () then logged_params [call] else [])"
  using assms by (auto simp add: tracked_def split: sum.splits)

text \<open>
  The loop over the merged dictionary logs an initial segment of its entries other than
  "x" and "y", and all of them when it ends normally.
\<close>

lemma log_params_logged:
  assumes "log_params mlflow items st = (r, st')"
  shows "\<exists>new. logged_params (calls st') = logged_params (calls st) @ new
           \<and> initial_segment new (map (\<lambda>kv. (fst kv, KwArg (snd kv)))
                            (filter (\<lambda>kv. fst kv \<notin> {''x'', ''y''}) items))
           \<and> (r = Inr () \<longrightarrow> new = map (\<lambda>kv. (fst kv, KwArg (snd kv)))
                                       (filter (\<lambda>kv. fst kv \<notin> {''x'', ''y''}) items))"
  using assms
proof (induction items arbitrary: st)
  case Nil
  then show ?case by simp
next
  case (Cons kv items)
  obtain param_key param_value where kv: "kv = (param_key, param_value)"
    by (cases kv)
  show ?case
  proof (cases "param_key \<notin> set [''x'', ''y'']")
    case False
    with Cons.prems kv have "log_params mlflow items st = (r, st')"
      by (auto split: if_splits)
    from Cons.IH [OF this] False kv show ?thesis by auto
  next
    case True
    obtain r1 st1 where t: "tracked (log_param mlflow (store st) param_key (KwArg param_value))
        (LogParam param_key (KwArg param_value)) st = (r1, st1)"
      by (cases "tracked (log_param mlflow (store st) param_key (KwArg param_value))
            (LogParam param_key (KwArg param_value)) st") blast
    note l1 = tracked_logged [OF t]
    show ?thesis
    proof (cases r1)
      case (Inl e)
      with Cons.prems True t kv have "r = Inl e" and "st' = st1"
        by (auto split: if_splits)
      with l1 Inl show ?thesis by simp
    next
      case (Inr u)
      with Cons.prems True t kv have rest: "log_params mlflow items st1 = (r, st')"
        by (auto split: if_splits)
      from Cons.IH [OF rest]
      obtain new where n: "logged_params (calls st') = logged_params (calls st1) @ new"
        and p: "initial_segment new (map (\<lambda>kv. (fst kv, KwArg (snd kv)))
                              (filter (\<lambda>kv. fst kv \<notin> {''x'', ''y''}) items))"
        and f: "r = Inr () \<longrightarrow> new = map (\<lambda>kv. (fst kv, KwArg (snd kv)))
                                       (filter (\<lambda>kv. fst kv \<notin> {''x'', ''y''}) items)"
        by auto
      from l1 Inr n have "logged_params (calls st')
          = logged_params (calls st) @ ((param_key, KwArg param_value) # new)"
        by simp
      with p f True kv show ?thesis
        by (intro exI [of _ "(param_key, KwArg param_value) # new"]) simp
    qed
  qed
qed

text \<open>The metric loops log no parameter.\<close>

lemma log_metric_values_logged:
  "log_metric_values mlflow key i vs st = (r, st') \<Longrightarrow>
     logged_params (calls st') = logged_params (calls st)"
proof (induction vs arbitrary: i st)
  case Nil
  then show ?case by simp
next
  case (Cons v vs)
  obtain r1 st1 where t: "tracked (log_metric mlflow (store st) key v i) (LogMetric key v i) st
      = (r1, st1)"
    by (cases "tracked (log_metric mlflow (store st) key v i) (LogMetric key v i) st") blast
  from tracked_logged [OF t] have l1: "logged_params (calls st1) = logged_params (calls st)"
    by simp
  show ?case
  proof (cases r1)
    case (Inl e)
    with Cons.prems t l1 show ?thesis by auto
  next
    case (Inr u)
    with Cons.prems t have "log_metric_values mlflow key (Suc i) vs st1 = (r, st')" by simp
    from Cons.IH [OF this] l1 show ?thesis by simp
  qed
qed

lemma log_metrics_logged:
  "log_metrics mlflow history st = (r, st') \<Longrightarrow>
     logged_params (calls st') = logged_params (calls st)"
proof (induction history arbitrary: st)
  case Nil
  then show ?case by simp
next
  case (Cons kv history)
  obtain key vs where kv: "kv = (key, vs)" by (cases kv)
  obtain r1 st1 where t: "log_metric_values mlflow key 0 vs st = (r1, st1)"
    by (cases "log_metric_values mlflow key 0 vs st") blast
  note l1 = log_metric_values_logged [OF t]
  show ?case
  proof (cases r1)
    case (Inl e)
    with Cons.prems t kv l1 show ?thesis by auto
  next
    case (Inr u)
    with Cons.prems t kv have "log_metrics mlflow history st1 = (r, st')" by simp
    from Cons.IH [OF this] l1 show ?thesis by simp
  qed
qed

text \<open>
  The layer loop logs an initial segment of the layers' parameters, and all of them when
  it ends normally, which it can only when every shape has a second entry.
\<close>

lemma log_layers_logged:
  assumes "log_layers mlflow i shapes st = (r, st')"
  shows "\<exists>new. logged_params (calls st') = logged_params (calls st) @ new
           \<and> initial_segment new (map (\<lambda>p. (''hidden_layer_'' @ str_nat (fst p) @ ''_units'',
                                     Dim (snd p ! 1))) (enumerate i shapes))
           \<and> (r = Inr () \<longrightarrow>
                new = map (\<lambda>p. (''hidden_layer_'' @ str_nat (fst p) @ ''_units'',
                                 Dim (snd p ! 1))) (enumerate i shapes)
                \<and> (\<forall>output_shape \<in> set shapes. 2 \<le> length output_shape))"
  using assms
proof (induction shapes arbitrary: i st)
  case Nil
  then show ?case by simp
next
  case (Cons output_shape shapes)
  let ?key = "''hidden_layer_'' @ str_nat i @ ''_units''"
  show ?case
  proof (cases "length output_shape \<le> 1")
    case True
    with Cons.prems have "r = Inl IndexError" and "st' = st" by simp_all
    then show ?thesis by simp
  next
    case False
    obtain r1 st1 where t: "tracked (log_param mlflow (store st) ?key (Dim (output_shape ! 1)))
        (LogParam ?key (Dim (output_shape ! 1))) st = (r1, st1)"
      by (cases "tracked (log_param mlflow (store st) ?key (Dim (output_shape ! 1)))
            (LogParam ?key (Dim (output_shape ! 1))) st") blast
    note l1 = tracked_logged [OF t]
    show ?thesis
    proof (cases r1)
      case (Inl e)
      with Cons.prems False t have "r = Inl e" and "st' = st1" by simp_all
      with l1 Inl show ?thesis by simp
    next
      case (Inr u)
      with Cons.prems False t have rest: "log_layers mlflow (Suc i) shapes st1 = (r, st')"
        by simp
      from Cons.IH [OF rest]
      obtain new where n: "logged_params (calls st') = logged_params (calls st1) @ new"
        and p: "initial_segment new (map (\<lambda>p. (''hidden_layer_'' @ str_nat (fst p) @ ''_units'',
                                       Dim (snd p ! 1))) (enumerate (Suc i) shapes))"
        and f: "r = Inr () \<longrightarrow>
                new = map (\<lambda>p. (''hidden_layer_'' @ str_nat (fst p) @ ''_units'',
                                 Dim (snd p ! 1))) (enumerate (Suc i) shapes)
                \<and> (\<forall>output_shape \<in> set shapes. 2 \<le> length output_shape)"
        by auto
      from l1 Inr n have "logged_params (calls st')
          = logged_params (calls st) @ ((?key, Dim (output_shape ! 1)) # new)"
        by simp
      with p f False show ?thesis
        by (intro exI [of _ "(?key, Dim (output_shape ! 1)) # new"]) simp
    qed
  qed
qed

lemma track_experiments_prefix:
  fixes mlflow :: "('t, 'e, 'v, 'm) mlflow"
  assumes te: "track_experiments mlflow plt run_name model compile_kwargs fit_kwargs
                 optional_params t0 = (r, st)"
  shows "initial_segment (logged_params (calls st))
           (map (\<lambda>kv. (fst kv, KwArg (snd kv)))
              (filter (\<lambda>kv. fst kv \<notin> {''x'', ''y''})
                 (merge_kwargs compile_kwargs fit_kwargs optional_params))
            @ (case model of
                 Inl e \<Rightarrow> []
               | Inr m \<Rightarrow> map (\<lambda>p. (''hidden_layer_'' @ str_nat (fst p) @ ''_units'',
                                      Dim (snd p ! 1))) (enumerate 0 (layers m))))
         \<and> (r = Inr () \<longrightarrow>
              (\<exists>m. model = Inr m
                 \<and> logged_params (calls st)
                     = map (\<lambda>kv. (fst kv, KwArg (snd kv)))
                         (filter (\<lambda>kv. fst kv \<notin> {''x'', ''y''})
                            (merge_kwargs compile_kwargs fit_kwargs optional_params))
                       @ map (\<lambda>p. (''hidden_layer_'' @ str_nat (fst p) @ ''_units'',
                                    Dim (snd p ! 1))) (enumerate 0 (layers m))
                 \<and> (\<forall>output_shape \<in> set (layers m). 2 \<le> length output_shape)))"
proof -
  let ?kw = "map (\<lambda>kv. (fst kv, KwArg (snd kv)))
               (filter (\<lambda>kv. fst kv \<notin> {''x'', ''y''})
                  (merge_kwargs compile_kwargs fit_kwargs optional_params))"
  let ?units = "\<lambda>m :: ('e, 'v, 'm) keras_model.
      map (\<lambda>p. (''hidden_layer_'' @ str_nat (fst p) @ ''_units'', Dim (snd p ! 1)))
        (enumerate 0 (layers m))"
  let ?init = "\<lparr>store = t0, calls = []\<rparr> :: ('t, 'v, 'm) tracking"
  obtain r0 st0 where s0: "tracked (start_run mlflow t0 run_name) (StartRun run_name) ?init
      = (r0 :: 'e exn + unit, st0)"
    by (cases "tracked (start_run mlflow t0 run_name) (StartRun run_name) ?init
          :: ('e exn + unit) \<times> ('t, 'v, 'm) tracking") blast
  from tracked_logged [OF s0] have l0: "logged_params (calls st0) = []" by simp
  have early: ?thesis if "st = st0" and "r \<noteq> Inr ()"
    using that l0 by simp
  show ?thesis
  proof (cases r0)
    case (Inl e)
    with te s0 have "st = st0" and "r \<noteq> Inr ()"
      by (auto simp add: track_experiments_def)
    then show ?thesis by (rule early)
  next
    case r0: (Inr u0)
    show ?thesis
    proof (cases model)
      case (Inl e)
      with te s0 r0 have "st = st0" and "r \<noteq> Inr ()"
        by (auto simp add: track_experiments_def)
      then show ?thesis by (rule early)
    next
      case m: (Inr m)
      show ?thesis
      proof (cases "compile m compile_kwargs")
        case (Inl e)
        with te s0 r0 m have "st = st0" and "r \<noteq> Inr ()"
          by (auto simp add: track_experiments_def)
        then show ?thesis by (rule early)
      next
        case c: (Inr uc)
        show ?thesis
        proof (cases "fit m fit_kwargs")
          case (Inl e)
          with te s0 r0 m c have "st = st0" and "r \<noteq> Inr ()"
            by (auto simp add: track_experiments_def)
          then show ?thesis by (rule early)
        next
          case f: (Inr history)
          obtain r1 st1 where s1: "log_params mlflow
              (merge_kwargs compile_kwargs fit_kwargs optional_params) st0 = (r1, st1)"
            by (cases "log_params mlflow
                  (merge_kwargs compile_kwargs fit_kwargs optional_params) st0") blast
          from log_params_logged [OF s1] l0
          obtain new1 where n1: "logged_params (calls st1) = new1"
            and p1: "initial_segment new1 ?kw" and f1: "r1 = Inr () \<longrightarrow> new1 = ?kw"
            by auto
          show ?thesis
          proof (cases r1)
            case (Inl e)
            with te s0 r0 m c f s1 have "st = st1" and "r \<noteq> Inr ()"
              by (auto simp add: track_experiments_def)
            with n1 p1 m show ?thesis by (simp add: initial_segment_append)
          next
            case r1: (Inr u1)
            with n1 f1 have l1: "logged_params (calls st1) = ?kw" by simp
            obtain r2 st2 where s2: "log_metrics mlflow history st1 = (r2, st2)"
              by (cases "log_metrics mlflow history st1") blast
            from log_metrics_logged [OF s2] l1
            have l2: "logged_params (calls st2) = ?kw" by simp
            show ?thesis
            proof (cases r2)
              case (Inl e)
              with te s0 r0 m c f s1 r1 s2 have "st = st2" and "r \<noteq> Inr ()"
                by (auto simp add: track_experiments_def)
              with l2 m show ?thesis by simp
            next
              case r2: (Inr u2)
              obtain r3 st3 where s3: "log_layers mlflow 0 (layers m) st2 = (r3, st3)"
                by (cases "log_layers mlflow 0 (layers m) st2") blast
              from log_layers_logged [OF s3] l2
              obtain new3 where n3: "logged_params (calls st3) = ?kw @ new3"
                and p3: "initial_segment new3 (?units m)"
                and f3: "r3 = Inr () \<longrightarrow> new3 = ?units m
                           \<and> (\<forall>output_shape \<in> set (layers m). 2 \<le> length output_shape)"
                by auto
              show ?thesis
              proof (cases r3)
                case (Inl e)
                with te s0 r0 m c f s1 r1 s2 r2 s3 have "st = st3" and "r \<noteq> Inr ()"
                  by (auto simp add: track_experiments_def)
                with n3 p3 m show ?thesis by simp
              next
                case r3: (Inr u3)
                with n3 f3 have l3: "logged_params (calls st3) = ?kw @ ?units m"
                  and ok: "\<forall>output_shape \<in> set (layers m). 2 \<le> length output_shape"
                  by simp_all
                obtain r4 st4 where s4: "tracked (log_model mlflow (store st3) ''model'')
                    (LogModel ''model'') st3 = (r4 :: 'e exn + unit, st4)"
                  by (cases "tracked (log_model mlflow (store st3) ''model'')
                        (LogModel ''model'') st3 :: ('e exn + unit) \<times> ('t, 'v, 'm) tracking")
                     blast
                from tracked_logged [OF s4] l3
                have l4: "logged_params (calls st4) = ?kw @ ?units m" by simp
                obtain r5 st5 where s5:
                  "tracked (log_figure mlflow (store st4) ''train-validation-loss.png'')
                     (LogFigure ''train-validation-loss.png'') st4 = (r5 :: 'e exn + unit, st5)"
                  by (cases "tracked (log_figure mlflow (store st4) ''train-validation-loss.png'')
                        (LogFigure ''train-validation-loss.png'') st4
                        :: ('e exn + unit) \<times> ('t, 'v, 'm) tracking") blast
                from tracked_logged [OF s5] l4
                have l5: "logged_params (calls st5) = ?kw @ ?units m" by simp
                from te s0 r0 m c f s1 r1 s2 r2 s3 r3 s4 s5
                have "st = st4 \<or> st = st5"
                  by (auto simp add: track_experiments_def split: sum.splits)
                with l4 l5 have "logged_params (calls st) = ?kw @ ?units m" by auto
                with m ok show ?thesis by simp
              qed
            qed
          qed
        qed
      qed
    qed
  qed
qed

text \<open>
  C8, as the code has it. Whenever \<^verbatim>\<open>track_experiments\<close> returns normally, the
  parameters it has logged are, in order: one for each key of the merged dictionary
  \<^verbatim>\<open>{**compile_kwargs, **fit_kwargs, **optional_params}\<close> other than "x" and "y", with
  the key's value in the merged dictionary (a later dictionary overrides an earlier one,
  and the merged dictionary holds each key once); and after them one parameter
  \<^verbatim>\<open>hidden_layer_{i}_units\<close> for each layer of the model, holding
  \<^verbatim>\<open>layer.output_shape[1]\<close>. In every execution, also one that an exception ends (of the
  model builder, of \<^verbatim>\<open>compile\<close> or \<^verbatim>\<open>fit\<close>, of a tracking call such as
  \<^verbatim>\<open>log_param\<close> refusing a changed value, or of an output shape with no second entry),
  the parameters logged are an initial segment of that sequence, and "x" and "y" are
  never logged.
\<close>

theorem track_experiments_logged_params:
  fixes mlflow :: "('t, 'e, 'v, 'm) mlflow"
  assumes "track_experiments mlflow plt run_name model compile_kwargs fit_kwargs
             optional_params t0 = (r, st)"
  shows "(r = Inr () \<longrightarrow>
            (\<exists>m. model = Inr m
               \<and> logged_params (calls st)
                   = map (\<lambda>kv. (fst kv, KwArg (snd kv)))
                       (filter (\<lambda>kv. fst kv \<notin> {''x'', ''y''})
                          (merge_kwargs compile_kwargs fit_kwargs optional_params))
                     @ map (\<lambda>p. (''hidden_layer_'' @ str_nat (fst p) @ ''_units'',
                                  Dim (snd p ! 1))) (enumerate 0 (layers m))))
         \<and> initial_segment (logged_params (calls st))
             (map (\<lambda>kv. (fst kv, KwArg (snd kv)))
                (filter (\<lambda>kv. fst kv \<notin> {''x'', ''y''})
                   (merge_kwargs compile_kwargs fit_kwargs optional_params))
              @ (case model of
                   Inl e \<Rightarrow> []
                 | Inr m \<Rightarrow> map (\<lambda>p. (''hidden_layer_'' @ str_nat (fst p) @ ''_units'',
                                        Dim (snd p ! 1))) (enumerate 0 (layers m))))
         \<and> ''x'' \<notin> fst ` set (logged_params (calls st))
         \<and> ''y'' \<notin> fst ` set (logged_params (calls st))
         \<and> distinct (map fst (merge_kwargs compile_kwargs fit_kwargs optional_params))
         \<and> (distinct (map fst compile_kwargs) \<and> distinct (map fst fit_kwargs)
              \<and> distinct (map fst optional_params)
            \<longrightarrow> map_of (merge_kwargs compile_kwargs fit_kwargs optional_params)
                  = map_of compile_kwargs ++ map_of fit_kwargs ++ map_of optional_params)"
proof -
  let ?full = "map (\<lambda>kv. (fst kv, KwArg (snd kv)))
                (filter (\<lambda>kv. fst kv \<notin> {''x'', ''y''})
                   (merge_kwargs compile_kwargs fit_kwargs optional_params))
              @ (case model of
                   Inl e \<Rightarrow> []
                 | Inr m \<Rightarrow> map (\<lambda>p. (''hidden_layer_'' @ str_nat (fst p) @ ''_units'',
                                        Dim (snd p ! 1))) (enumerate 0 (layers m)))"
  note p = track_experiments_prefix [OF assms]
  from p have pre: "initial_segment (logged_params (calls st)) ?full" by blast
  then have sub: "set (logged_params (calls st)) \<subseteq> set ?full"
    by (rule initial_segment_set)
  have "''x'' \<notin> fst ` set ?full" and "''y'' \<notin> fst ` set ?full"
    by (auto split: sum.splits)
  with sub have xy: "''x'' \<notin> fst ` set (logged_params (calls st))"
    "''y'' \<notin> fst ` set (logged_params (calls st))"
    by blast+
  from p have full: "r = Inr () \<longrightarrow>
            (\<exists>m. model = Inr m
               \<and> logged_params (calls st)
                   = map (\<lambda>kv. (fst kv, KwArg (snd kv)))
                       (filter (\<lambda>kv. fst kv \<notin> {''x'', ''y''})
                          (merge_kwargs compile_kwargs fit_kwargs optional_params))
                     @ map (\<lambda>p. (''hidden_layer_'' @ str_nat (fst p) @ ''_units'',
                                  Dim (snd p ! 1))) (enumerate 0 (layers m)))"
    by blast
  from full pre xy merge_kwargs_distinct [of compile_kwargs fit_kwargs optional_params]
    merge_kwargs_map_of [of compile_kwargs fit_kwargs optional_params]
  show ?thesis by blast
qed

theorem track_experiments_logged_params_witness:
  "(\<exists>st. track_experiments sample_mlflow sample_pyplot ''ADAM'' (Inr sample_model)
            sample_compile_kwargs sample_fit_kwargs [] [] = (Inr (), st)
        \<and> logged_params (calls st)
            = [(''optimizer'', KwArg (PyStr ''adam'')), (''loss'', KwArg (PyStr ''mse'')),
               (''metrics'', KwArg (PyStrList [''mse'', ''mae''])),
               (''epochs'', KwArg (PyInt 10)), (''verbose'', KwArg (PyInt 2)),
               (''batch_size'', KwArg (PyInt 64)),
               (''hidden_layer_0_units'', Dim (Some 20)),
               (''hidden_layer_1_units'', Dim (Some 20)),
               (''hidden_layer_2_units'', Dim (Some 1))])
   \<and> (\<exists>st. track_experiments sample_mlflow sample_pyplot ''ADAM'' (Inr sample_model)
            sample_compile_kwargs sample_fit_kwargs
            [(''hidden_layer_0_units'', PyStr ''99'')] []
              = (Inl (Raised ''MlflowException''), st)
        \<and> initial_segment (logged_params (calls st))
            [(''optimizer'', KwArg (PyStr ''adam'')), (''loss'', KwArg (PyStr ''mse'')),
             (''metrics'', KwArg (PyStrList [''mse'', ''mae''])),
             (''epochs'', KwArg (PyInt 10)), (''verbose'', KwArg (PyInt 2)),
             (''batch_size'', KwArg (PyInt 64)),
             (''hidden_layer_0_units'', KwArg (PyStr ''99'')),
             (''hidden_layer_0_units'', Dim (Some 20)),
             (''hidden_layer_1_units'', Dim (Some 20)),
             (''hidden_layer_2_units'', Dim (Some 1))]
        \<and> ''x'' \<notin> fst ` set (logged_params (calls st))
        \<and> ''y'' \<notin> fst ` set (logged_params (calls st)))"
proof -
  let ?run = "track_experiments sample_mlflow sample_pyplot ''ADAM'' (Inr sample_model)
                sample_compile_kwargs sample_fit_kwargs"
  let ?opt = "[(''hidden_layer_0_units'', PyStr ''99'')]"
  have kw: "map (\<lambda>kv. (fst kv, KwArg (snd kv)))
              (filter (\<lambda>kv. fst kv \<notin> {''x'', ''y''})
                 (merge_kwargs sample_compile_kwargs sample_fit_kwargs []))
      = [(''optimizer'', KwArg (PyStr ''adam'')), (''loss'', KwArg (PyStr ''mse'')),
         (''metrics'', KwArg (PyStrList [''mse'', ''mae''])),
         (''epochs'', KwArg (PyInt 10)), (''verbose'', KwArg (PyInt 2)),
         (''batch_size'', KwArg (PyInt 64))]"
    by code_simp
  have kw': "map (\<lambda>kv. (fst kv, KwArg (snd kv)))
              (filter (\<lambda>kv. fst kv \<notin> {''x'', ''y''})
                 (merge_kwargs sample_compile_kwargs sample_fit_kwargs ?opt))
      = [(''optimizer'', KwArg (PyStr ''adam'')), (''loss'', KwArg (PyStr ''mse'')),
         (''metrics'', KwArg (PyStrList [''mse'', ''mae''])),
         (''epochs'', KwArg (PyInt 10)), (''verbose'', KwArg (PyInt 2)),
         (''batch_size'', KwArg (PyInt 64)),
         (''hidden_layer_0_units'', KwArg (PyStr ''99''))]"
    by code_simp
  have units: "map (\<lambda>p. (''hidden_layer_'' @ str_nat (fst p) @ ''_units'', Dim (snd p ! 1)))
             (enumerate 0 (layers sample_model))
      = [(''hidden_layer_0_units'', Dim (Some 20) :: pyvalue logged),
         (''hidden_layer_1_units'', Dim (Some 20)), (''hidden_layer_2_units'', Dim (Some 1))]"
    by code_simp
  have "fst (?run [] []) = Inr ()"
    by code_simp
  then have te1: "?run [] [] = (Inr (), snd (?run [] []))"
    by (simp add: prod_eq_iff)
  have "fst (?run ?opt []) = Inl (Raised ''MlflowException'')"
    by code_simp
  then have te2: "?run ?opt [] = (Inl (Raised ''MlflowException''), snd (?run ?opt []))"
    by (simp add: prod_eq_iff)
  note th1 = track_experiments_logged_params [OF te1]
  note th2 = track_experiments_logged_params [OF te2, unfolded kw' sum.case units]
  from th1 obtain m where m: "Inr sample_model = (Inr m :: string + (string, pyvalue, int) keras_model)"
    and eq: "logged_params (calls (snd (?run [] [])))
      = map (\<lambda>kv. (fst kv, KwArg (snd kv)))
          (filter (\<lambda>kv. fst kv \<notin> {''x'', ''y''})
             (merge_kwargs sample_compile_kwargs sample_fit_kwargs []))
        @ map (\<lambda>p. (''hidden_layer_'' @ str_nat (fst p) @ ''_units'', Dim (snd p ! 1)))
            (enumerate 0 (layers m))"
    by blast
  from m have "m = sample_model" by simp
  with eq have "logged_params (calls (snd (?run [] [])))
      = [(''optimizer'', KwArg (PyStr ''adam'')), (''loss'', KwArg (PyStr ''mse'')),
         (''metrics'', KwArg (PyStrList [''mse'', ''mae''])),
         (''epochs'', KwArg (PyInt 10)), (''verbose'', KwArg (PyInt 2)),
         (''batch_size'', KwArg (PyInt 64))]
        @ [(''hidden_layer_0_units'', Dim (Some 20)),
           (''hidden_layer_1_units'', Dim (Some 20)), (''hidden_layer_2_units'', Dim (Some 1))]"
    by (simp only: kw units)
  with te1 have 1: "\<exists>st. ?run [] [] = (Inr (), st)
        \<and> logged_params (calls st)
            = [(''optimizer'', KwArg (PyStr ''adam'')), (''loss'', KwArg (PyStr ''mse'')),
               (''metrics'', KwArg (PyStrList [''mse'', ''mae''])),
               (''epochs'', KwArg (PyInt 10)), (''verbose'', KwArg (PyInt 2)),
               (''batch_size'', KwArg (PyInt 64)),
               (''hidden_layer_0_units'', Dim (Some 20)),
               (''hidden_layer_1_units'', Dim (Some 20)),
               (''hidden_layer_2_units'', Dim (Some 1))]"
    by (intro exI [of _ "snd (?run [] [])"]) simp
  from th2 have "initial_segment (logged_params (calls (snd (?run ?opt []))))
        ([(''optimizer'', KwArg (PyStr ''adam'')), (''loss'', KwArg (PyStr ''mse'')),
          (''metrics'', KwArg (PyStrList [''mse'', ''mae''])),
          (''epochs'', KwArg (PyInt 10)), (''verbose'', KwArg (PyInt 2)),
          (''batch_size'', KwArg (PyInt 64)),
          (''hidden_layer_0_units'', KwArg (PyStr ''99''))]
         @ [(''hidden_layer_0_units'', Dim (Some 20)),
            (''hidden_layer_1_units'', Dim (Some 20)), (''hidden_layer_2_units'', Dim (Some 1))])"
    and "''x'' \<notin> fst ` set (logged_params (calls (snd (?run ?opt []))))"
    and "''y'' \<notin> fst ` set (logged_params (calls (snd (?run ?opt []))))"
    by blast+
  with te2 have 2: "\<exists>st. ?run ?opt [] = (Inl (Raised ''MlflowException''), st)
        \<and> initial_segment (logged_params (calls st))
            [(''optimizer'', KwArg (PyStr ''adam'')), (''loss'', KwArg (PyStr ''mse'')),
             (''metrics'', KwArg (PyStrList [''mse'', ''mae''])),
             (''epochs'', KwArg (PyInt 10)), (''verbose'', KwArg (PyInt 2)),
             (''batch_size'', KwArg (PyInt 64)),
             (''hidden_layer_0_units'', KwArg (PyStr ''99'')),
             (''hidden_layer_0_units'', Dim (Some 20)),
             (''hidden_layer_1_units'', Dim (Some 20)),
             (''hidden_layer_2_units'', Dim (Some 1))]
        \<and> ''x'' \<notin> fst ` set (logged_params (calls st))
        \<and> ''y'' \<notin> fst ` set (logged_params (calls st))"
    by (intro exI [of _ "snd (?run ?opt [])"]) simp
  from 1 2 show ?thesis by (rule conjI)
qed

text \<open>
  C8 as stated, that exactly the keys of the merged dictionaries other than "x" and "y"
  are logged, fails on the notebook's own first run: it returns normally,
  \<^verbatim>\<open>hidden_layer_0_units\<close> is logged with the value 20, and that is a key of none of the
  dictionaries.
\<close>

theorem track_experiments_logs_layer_units:
  "fst (track_experiments sample_mlflow sample_pyplot ''ADAM'' (Inr sample_model)
          sample_compile_kwargs sample_fit_kwargs [] []) = Inr ()
   \<and> (''hidden_layer_0_units'', Dim (Some 20))
      \<in> set (logged_params (calls (snd
               (track_experiments sample_mlflow sample_pyplot ''ADAM'' (Inr sample_model)
                  sample_compile_kwargs sample_fit_kwargs [] []))))
   \<and> ''hidden_layer_0_units''
      \<notin> fst ` set (merge_kwargs sample_compile_kwargs sample_fit_kwargs [])"
  by code_simp

end
